theory Spec2Isabelle
  imports Main
begin

section \<open>Python values used by the cleaning code\<close>

text \<open>
  The repository is Python 2 (\<^verbatim>\<open>unicode\<close>, \<^verbatim>\<open>iteritems\<close>). Strings are modelled as
  lists of 8-bit characters; case conversion and the character classes are the ASCII ones
  of a byte string under the C locale (a \<^verbatim>\<open>unicode\<close> value differs only in how
  \<^verbatim>\<open>capitalize\<close>, \<^verbatim>\<open>upper\<close> and \<^verbatim>\<open>split\<close> treat characters outside ASCII).
  Every exception the modelled code can raise is a value of \<open>py_error\<close>, and a method
  that can raise returns \<open>py_error + 'a\<close>.
\<close>

datatype py_error = KeyError | IndexError | TypeError | AttributeError | ValueError | ReError

definition bind_err :: "py_error + 'a \<Rightarrow> ('a \<Rightarrow> py_error + 'b) \<Rightarrow> py_error + 'b" where
  "bind_err r f = (case r of Inl e \<Rightarrow> Inl e | Inr x \<Rightarrow> f x)"

definition is_lower :: "char \<Rightarrow> bool" where
  "is_lower c = (c \<in> set ''abcdefghijklmnopqrstuvwxyz'')"

definition is_upper :: "char \<Rightarrow> bool" where
  "is_upper c = (c \<in> set ''ABCDEFGHIJKLMNOPQRSTUVWXYZ'')"

definition is_digit :: "char \<Rightarrow> bool" where
  "is_digit c = (c \<in> set ''0123456789'')"

definition is_space :: "char \<Rightarrow> bool" where
  "is_space c = (c \<in> set [CHR '' '', CHR 0x09, CHR 0x0A, CHR 0x0B, CHR 0x0C, CHR 0x0D])"

definition is_word :: "char \<Rightarrow> bool" where
  "is_word c = (is_lower c \<or> is_upper c \<or> is_digit c \<or> c = CHR ''_'')"

definition to_upper :: "char \<Rightarrow> char" where
  "to_upper c = (case map_of (zip ''abcdefghijklmnopqrstuvwxyz'' ''ABCDEFGHIJKLMNOPQRSTUVWXYZ'') c
                 of Some u \<Rightarrow> u | None \<Rightarrow> c)"

definition to_lower :: "char \<Rightarrow> char" where
  "to_lower c = (case map_of (zip ''ABCDEFGHIJKLMNOPQRSTUVWXYZ'' ''abcdefghijklmnopqrstuvwxyz'') c
                 of Some l \<Rightarrow> l | None \<Rightarrow> c)"

definition upper :: "string \<Rightarrow> string" where
  "upper s = map to_upper s"

text \<open>\<^verbatim>\<open>s.capitalize()\<close>: first character upper-cased, the rest lower-cased.\<close>

definition capitalize :: "string \<Rightarrow> string" where
  "capitalize s = (case s of [] \<Rightarrow> [] | c # cs \<Rightarrow> to_upper c # map to_lower cs)"

text \<open>\<^verbatim>\<open>s.split()\<close>: the maximal runs of non-whitespace characters; \<open>w\<close> is the run
  being read.\<close>

fun split_ws :: "string \<Rightarrow> string \<Rightarrow> string list" where
  "split_ws w [] = (if w = [] then [] else [w])"
| "split_ws w (c # cs) =
     (if is_space c then (if w = [] then split_ws [] cs else w # split_ws [] cs)
      else split_ws (w @ [c]) cs)"

fun join :: "string \<Rightarrow> string list \<Rightarrow> string" where
  "join sep [] = []"
| "join sep [x] = x"
| "join sep (x # y # ys) = x @ sep @ join sep (y # ys)"

text \<open>\<^verbatim>\<open>string.capwords(s)\<close> is \<^verbatim>\<open>' '.join(x.capitalize() for x in s.split())\<close>.\<close>

definition capwords :: "string \<Rightarrow> string" where
  "capwords s = join '' '' (map capitalize (split_ws [] s))"

text \<open>\<^verbatim>\<open>s.strip()\<close>.\<close>

definition strip :: "string \<Rightarrow> string" where
  "strip s = rev (dropWhile is_space (rev (dropWhile is_space s)))"

fun starts_with :: "string \<Rightarrow> string \<Rightarrow> bool" where
  "starts_with s [] = True"
| "starts_with [] (c # cs) = False"
| "starts_with (x # xs) (c # cs) = (x = c \<and> starts_with xs cs)"

text \<open>\<^verbatim>\<open>v in name\<close> on strings: \<open>v\<close> occurs in \<open>name\<close> as a contiguous substring.\<close>

fun contains :: "string \<Rightarrow> string \<Rightarrow> bool" where
  "contains [] v = (v = [])"
| "contains (x # xs) v = (starts_with (x # xs) v \<or> contains xs v)"

text \<open>\<^verbatim>\<open>name.split(char)\<close> for a one-character separator; \<open>w\<close> is the field being read.\<close>

fun split_chr :: "char \<Rightarrow> string \<Rightarrow> string \<Rightarrow> string list" where
  "split_chr sep w [] = [w]"
| "split_chr sep w (c # cs) =
     (if c = sep then w # split_chr sep [] cs else split_chr sep (w @ [c]) cs)"

text \<open>\<^verbatim>\<open>k.split(sep, 1)\<close>: at most one split, at the first separator.\<close>

definition split_once :: "char \<Rightarrow> string \<Rightarrow> string list" where
  "split_once sep s =
     (if sep \<in> set s then [takeWhile (\<lambda>c. c \<noteq> sep) s, tl (dropWhile (\<lambda>c. c \<noteq> sep) s)]
      else [s])"

text \<open>A dictionary with string keys, in iteration order. \<^verbatim>\<open>d[k]\<close> raises KeyError for a
  missing key; \<^verbatim>\<open>xs[i]\<close> raises IndexError out of range.\<close>

type_synonym dict = "(string \<times> string) list"

definition keys :: "dict \<Rightarrow> string list" where
  "keys d = map fst d"

definition getitem :: "dict \<Rightarrow> string \<Rightarrow> py_error + string" where
  "getitem d k = (case map_of d k of None \<Rightarrow> Inl KeyError | Some v \<Rightarrow> Inr v)"

definition index :: "'a list \<Rightarrow> nat \<Rightarrow> py_error + 'a" where
  "index xs i = (if i < length xs then Inr (xs ! i) else Inl IndexError)"

section \<open>The fragment of Python's \<^verbatim>\<open>re\<close> the code uses\<close>

text \<open>
  A pattern is embedded as the function a backtracking matcher computes: given the
  subject string, a position and the groups captured so far, the list of ways to match
  from that position (end position and captured groups), in the order the matcher tries
  them. The first element is the match \<^verbatim>\<open>re\<close> reports. A group is the span
  \<open>(start, end)\<close> it captured.
\<close>

type_synonym caps = "nat \<Rightarrow> (nat \<times> nat) option"
type_synonym matcher = "string \<Rightarrow> nat \<Rightarrow> caps \<Rightarrow> (nat \<times> caps) list"

text \<open>One character satisfying \<open>P\<close>: a literal, a class, \<^verbatim>\<open>\d\<close>, \<^verbatim>\<open>\s\<close> or \<^verbatim>\<open>.\<close>.\<close>

definition chr_if :: "(char \<Rightarrow> bool) \<Rightarrow> matcher" where
  "chr_if P s i c = (if i < length s \<and> P (s ! i) then [(Suc i, c)] else [])"

definition lit :: "char \<Rightarrow> matcher" where
  "lit a = chr_if (\<lambda>x. x = a)"

definition any_chr :: matcher where
  "any_chr = chr_if (\<lambda>x. x \<noteq> CHR 0x0A)"

definition eps :: matcher where
  "eps s i c = [(i, c)]"

definition seq :: "matcher \<Rightarrow> matcher \<Rightarrow> matcher" where
  "seq m1 m2 s i c = concat (map (\<lambda>(j, c'). m2 s j c') (m1 s i c))"

definition alt :: "matcher \<Rightarrow> matcher \<Rightarrow> matcher" where
  "alt m1 m2 s i c = m1 s i c @ m2 s i c"

text \<open>A literal string, character by character.\<close>

fun lits :: "string \<Rightarrow> matcher" where
  "lits [] = eps"
| "lits (a # as) = seq (lit a) (lits as)"

text \<open>Greedy \<^verbatim>\<open>{lo,hi}\<close>: one more repetition is tried before stopping.\<close>

fun rep :: "nat \<Rightarrow> nat \<Rightarrow> matcher \<Rightarrow> matcher" where
  "rep lo 0 m s i c = (if lo = 0 then [(i, c)] else [])"
| "rep lo (Suc hi) m s i c =
     concat (map (\<lambda>(j, c'). rep (lo - 1) hi m s j c') (m s i c))
     @ (if lo = 0 then [(i, c)] else [])"

text \<open>Greedy \<^verbatim>\<open>?\<close>, and greedy \<^verbatim>\<open>+\<close> for a body that consumes one character each
  time (the only use in the code), so that at most \<open>length s - i\<close> repetitions fit.\<close>

definition opt :: "matcher \<Rightarrow> matcher" where
  "opt m = rep 0 1 m"

definition plus :: "matcher \<Rightarrow> matcher" where
  "plus m s i c = rep 1 (length s - i) m s i c"

text \<open>Capturing group number \<open>k\<close>.\<close>

definition grp :: "nat \<Rightarrow> matcher \<Rightarrow> matcher" where
  "grp k m s i c = map (\<lambda>(j, c'). (j, c'(k \<mapsto> (i, j)))) (m s i c)"

text \<open>\<^verbatim>\<open>\b\<close>: exactly one of the characters before and after the position is a word
  character; \<^verbatim>\<open>^\<close>; \<^verbatim>\<open>$\<close> (the end, or just before a final newline).\<close>

definition word_before :: "string \<Rightarrow> nat \<Rightarrow> bool" where
  "word_before s i = (0 < i \<and> i \<le> length s \<and> is_word (s ! (i - 1)))"

definition word_after :: "string \<Rightarrow> nat \<Rightarrow> bool" where
  "word_after s i = (i < length s \<and> is_word (s ! i))"

definition wordb :: matcher where
  "wordb s i c = (if word_before s i \<noteq> word_after s i then [(i, c)] else [])"

definition bol :: matcher where
  "bol s i c = (if i = 0 then [(i, c)] else [])"

definition eol :: matcher where
  "eol s i c =
     (if i = length s \<or> (Suc i = length s \<and> s ! i = CHR 0x0A) then [(i, c)] else [])"

text \<open>\<^verbatim>\<open>(?<!...)\<close> for a body of fixed width \<open>w\<close>: fails when the body matches the
  \<open>w\<close> characters before the position; \<^verbatim>\<open>(?!...)\<close>: fails when the body matches at
  the position. Neither consumes input nor keeps a group.\<close>

definition neg_lookbehind :: "nat \<Rightarrow> matcher \<Rightarrow> matcher" where
  "neg_lookbehind w m s i c = (if w \<le> i \<and> m s (i - w) c \<noteq> [] then [] else [(i, c)])"

definition neg_lookahead :: "matcher \<Rightarrow> matcher" where
  "neg_lookahead m s i c = (if m s i c \<noteq> [] then [] else [(i, c)])"

text \<open>A compiled pattern: its matcher and its number of groups. A match object: the
  subject, the span of the whole match and the groups.\<close>

record pattern =
  p_matcher :: matcher
  p_groups :: nat

record match =
  m_string :: string
  m_start :: nat
  m_end :: nat
  m_caps :: caps
  m_ngroups :: nat

definition slice :: "string \<Rightarrow> nat \<Rightarrow> nat \<Rightarrow> string" where
  "slice s a b = take (b - a) (drop a s)"

text \<open>\<^verbatim>\<open>m.groups()\<close>: one entry per group, None for a group that took no part.\<close>

definition groups :: "match \<Rightarrow> string option list" where
  "groups m = map (\<lambda>k. map_option (\<lambda>(a, b). slice (m_string m) a b) (m_caps m k))
                  [1..<Suc (m_ngroups m)]"

definition match_at :: "pattern \<Rightarrow> string \<Rightarrow> nat \<Rightarrow> match option" where
  "match_at p s i =
     (case p_matcher p s i (\<lambda>k. None) of
        [] \<Rightarrow> None
      | (j, c) # rest \<Rightarrow>
          Some \<lparr>m_string = s, m_start = i, m_end = j, m_caps = c, m_ngroups = p_groups p\<rparr>)"

fun first_match :: "pattern \<Rightarrow> string \<Rightarrow> nat list \<Rightarrow> match option" where
  "first_match p s [] = None"
| "first_match p s (i # is) =
     (case match_at p s i of Some m \<Rightarrow> Some m | None \<Rightarrow> first_match p s is)"

text \<open>The search of the matcher from position \<open>st\<close> on: the leftmost start that
  matches. \<^verbatim>\<open>re.search(p, s)\<close> starts at 0.\<close>

definition search_from :: "pattern \<Rightarrow> string \<Rightarrow> nat \<Rightarrow> match option" where
  "search_from p s st = first_match p s [st..<Suc (length s)]"

definition re_search :: "pattern \<Rightarrow> string \<Rightarrow> match option" where
  "re_search p s = search_from p s 0"

text \<open>
  \<^verbatim>\<open>re.sub(p, repl, s)\<close> with a callable \<open>repl\<close>, as Python 2.7 does it: \<open>st\<close> is where
  the next search starts, \<open>i\<close> the end of the text already copied and \<open>n\<close> the number of
  replacements made. An empty match right after the previous match is skipped; after an
  empty match the search moves on by one character. An exception of \<open>repl\<close> ends the
  substitution.
\<close>

function sub_loop ::
  "pattern \<Rightarrow> (match \<Rightarrow> py_error + string) \<Rightarrow> string \<Rightarrow> nat \<Rightarrow> nat \<Rightarrow> nat \<Rightarrow> py_error + string"
where
  "sub_loop p repl s st i n =
     (case search_from p s st of
        None \<Rightarrow> Inr (drop i s)
      | Some m \<Rightarrow>
          if i = m_start m \<and> i = m_end m \<and> 0 < n
          then sub_loop p repl s (max (m_end m) (Suc (m_start m))) i n
          else (case repl m of
                  Inl err \<Rightarrow> Inl err
                | Inr r \<Rightarrow>
                    (case sub_loop p repl s (max (m_end m) (Suc (m_start m))) (m_end m) (Suc n) of
                       Inl err \<Rightarrow> Inl err
                     | Inr rest \<Rightarrow> Inr (slice s i (m_start m) @ r @ rest))))"
  by pat_completeness auto

text \<open>A match found from \<open>st\<close> on starts at \<open>st\<close> or later, within the string; so the
  loop ends.\<close>

lemma first_match_start: "first_match p s is = Some m \<Longrightarrow> m_start m \<in> set is"
  by (induction "is") (auto simp: match_at_def split: option.splits list.splits)

lemma search_from_bounds:
  "search_from p s st = Some m \<Longrightarrow> st \<le> m_start m \<and> m_start m \<le> length s"
  using first_match_start [of p s "[st..<Suc (length s)]" m] by (auto simp: search_from_def)

termination sub_loop
  by (relation "measure (\<lambda>(p, repl, s, st, i, n). Suc (length s) - st)")
     (auto dest!: search_from_bounds)

declare sub_loop.simps [simp del]

definition re_sub :: "pattern \<Rightarrow> (match \<Rightarrow> py_error + string) \<Rightarrow> string \<Rightarrow> py_error + string" where
  "re_sub p repl s = sub_loop p repl s 0 0 0"

section \<open>\<^verbatim>\<open>clean_osm.py\<close>: class \<^verbatim>\<open>cleanOSM\<close>\<close>

record cleanOSM =
  dirty_value :: string
  mapping :: dict
  expected_values :: "string list"

definition clean_value :: "cleanOSM \<Rightarrow> py_error + string" where
  "clean_value self =
     (if dirty_value self \<in> set (keys (mapping self))
      then getitem (mapping self) (dirty_value self)
      else Inr (dirty_value self))"

definition set_to_none :: "cleanOSM \<Rightarrow> py_error + string" where
  "set_to_none self = Inr ''None''"

subsection \<open>\<^verbatim>\<open>update_street_name\<close>\<close>

text \<open>
  The pattern \<^verbatim>\<open>r"\b(" + key + r")\b(\.|\`)?"\<close> is built from the key's text, so the key
  is read as a pattern. The model reads keys made of ordinary characters and \<^verbatim>\<open>.\<close>
  (any character but a newline), which covers every key of the repository's tables; a key
  with another pattern operator is outside the fragment modelled and is reported as
  \<open>ReError\<close>, as is a replacement text with a backslash (a template escape).
\<close>

definition special_chars :: "char list" where
  "special_chars = CHR 0x5C # ''^$*+?{}[]|()''"

fun key_matcher :: "string \<Rightarrow> matcher option" where
  "key_matcher [] = Some eps"
| "key_matcher (a # as) =
     (if a \<in> set special_chars then None
      else (case key_matcher as of
              None \<Rightarrow> None
            | Some m \<Rightarrow> Some (seq (if a = CHR ''.'' then any_chr else lit a) m)))"

definition key_regex :: "string \<Rightarrow> py_error + pattern" where
  "key_regex key =
     (case key_matcher key of
        None \<Rightarrow> Inl ReError
      | Some km \<Rightarrow>
          Inr \<lparr>p_matcher =
                 seq wordb (seq (grp 1 km) (seq wordb
                   (opt (grp 2 (alt (lit (CHR ''.'')) (lit (CHR 0x60))))))),
               p_groups = 2\<rparr>)"

definition template :: "string \<Rightarrow> py_error + (match \<Rightarrow> py_error + string)" where
  "template v = (if CHR 0x5C \<in> set v then Inl ReError else Inr (\<lambda>m. Inr v))"

text \<open>The loop over the keys of the mapping; \<open>cv\<close> is the variable \<^verbatim>\<open>clean_value\<close>.
  Each substitution is made in \<^verbatim>\<open>self.dirty_value\<close>.\<close>

fun update_loop :: "cleanOSM \<Rightarrow> string list \<Rightarrow> string \<Rightarrow> py_error + string" where
  "update_loop self [] cv = Inr cv"
| "update_loop self (key # ks) cv =
     (if contains (dirty_value self) key then
        (case key_regex key of
           Inl e \<Rightarrow> Inl e
         | Inr rx \<Rightarrow>
             (case re_search rx (dirty_value self) of
                None \<Rightarrow> update_loop self ks cv
              | Some found \<Rightarrow>
                  (case getitem (mapping self) key of
                     Inl e \<Rightarrow> Inl e
                   | Inr v \<Rightarrow>
                       (case template v of
                          Inl e \<Rightarrow> Inl e
                        | Inr repl \<Rightarrow>
                            (case re_sub rx repl (dirty_value self) of
                               Inl e \<Rightarrow> Inl e
                             | Inr cv' \<Rightarrow> update_loop self ks cv')))))
      else update_loop self ks cv)"

definition update_street_name :: "cleanOSM \<Rightarrow> py_error + string" where
  "update_street_name self = update_loop self (keys (mapping self)) (dirty_value self)"

text \<open>The second test of the loop body, \<^verbatim>\<open>re.search(key_regex, self.dirty_value)\<close>:
  the key occurs in \<open>s\<close> as a whole word.\<close>

definition key_occurs :: "string \<Rightarrow> string \<Rightarrow> bool" where
  "key_occurs key s = (case key_regex key of Inl e \<Rightarrow> False | Inr rx \<Rightarrow> re_search rx s \<noteq> None)"

subsection \<open>The rewrite steps of \<^verbatim>\<open>clean_street_name\<close>\<close>

text \<open>\<^verbatim>\<open>a + b\<close> on strings raises TypeError when an operand is None, and
  \<^verbatim>\<open>g.upper()\<close> raises AttributeError when \<open>g\<close> is None.\<close>

definition str_add :: "string option \<Rightarrow> string option \<Rightarrow> py_error + string" where
  "str_add a b = (case a of None \<Rightarrow> Inl TypeError
                  | Some x \<Rightarrow> (case b of None \<Rightarrow> Inl TypeError | Some y \<Rightarrow> Inr (x @ y)))"

definition upper_of :: "string option \<Rightarrow> py_error + string" where
  "upper_of g = (case g of None \<Rightarrow> Inl AttributeError | Some t \<Rightarrow> Inr (upper t))"

definition digits12 :: matcher where
  "digits12 = rep 1 2 (chr_if is_digit)"

definition letter_or_bar :: "char \<Rightarrow> bool" where
  "letter_or_bar c = (is_lower c \<or> c = CHR ''|'' \<or> is_upper c)"

text \<open>\<^verbatim>\<open>(m.groups()[0]+m.groups()[1].upper()).strip()\<close>\<close>

definition replfunc :: "match \<Rightarrow> py_error + string" where
  "replfunc m =
     bind_err (index (groups m) 0) (\<lambda>g0.
     bind_err (index (groups m) 1) (\<lambda>g1.
     bind_err (upper_of g1) (\<lambda>u.
     bind_err (str_add g0 (Some u)) (\<lambda>r. Inr (strip r)))))"

text \<open>\<^verbatim>\<open>r"(\d{1,2})\s?\-?([a-z|A-Z]{1,2})\b"\<close>\<close>

definition letter_regex :: pattern where
  "letter_regex =
     \<lparr>p_matcher =
        seq (grp 1 digits12) (seq (opt (chr_if is_space)) (seq (opt (lit (CHR ''-'')))
          (seq (grp 2 (rep 1 2 (chr_if letter_or_bar))) wordb))),
      p_groups = 2\<rparr>"

definition street_letter_to_uppercase_and_removegap :: "cleanOSM \<Rightarrow> string \<Rightarrow> py_error + string" where
  "street_letter_to_uppercase_and_removegap self name =
     (case re_search letter_regex name of
        Some found \<Rightarrow> re_sub letter_regex replfunc name
      | None \<Rightarrow> Inr name)"

text \<open>\<^verbatim>\<open>m.groups()[index_1]+m.groups()[index_2].upper()\<close>\<close>

definition switchfunc :: "match \<Rightarrow> nat \<Rightarrow> nat \<Rightarrow> py_error + string" where
  "switchfunc m index_1 index_2 =
     bind_err (index (groups m) index_1) (\<lambda>g1.
     bind_err (index (groups m) index_2) (\<lambda>g2.
     bind_err (upper_of g2) (\<lambda>u. str_add g1 (Some u))))"

text \<open>\<^verbatim>\<open>r"\b([A-Z])(\d{1,2})\b"\<close>\<close>

definition switch_regex :: pattern where
  "switch_regex =
     \<lparr>p_matcher = seq wordb (seq (grp 1 (chr_if is_upper)) (seq (grp 2 digits12) wordb)),
      p_groups = 2\<rparr>"

definition switch_digit_position :: "cleanOSM \<Rightarrow> string \<Rightarrow> py_error + string" where
  "switch_digit_position self name =
     (case re_search switch_regex name of
        Some found \<Rightarrow> re_sub switch_regex (\<lambda>x. switchfunc x 1 0) name
      | None \<Rightarrow> Inr name)"

text \<open>\<^verbatim>\<open>r"(?<!(Plot No\. ))([A-Z])[\-|\s](\d{1,2})\b"\<close>\<close>

definition hyphen_regex :: pattern where
  "hyphen_regex =
     \<lparr>p_matcher =
        seq (neg_lookbehind 9 (grp 1 (lits ''Plot No. '')))
          (seq (grp 2 (chr_if is_upper))
            (seq (chr_if (\<lambda>c. c = CHR ''-'' \<or> c = CHR ''|'' \<or> is_space c))
              (seq (grp 3 digits12) wordb))),
      p_groups = 3\<rparr>"

definition remove_hypen_space_and_switch :: "cleanOSM \<Rightarrow> string \<Rightarrow> py_error + string" where
  "remove_hypen_space_and_switch self name =
     (case re_search hyphen_regex name of
        Some found \<Rightarrow> re_sub hyphen_regex (\<lambda>x. switchfunc x 2 1) name
      | None \<Rightarrow> Inr name)"

text \<open>\<^verbatim>\<open>r"\(?(\d{1,2})(th|rd|st|TH|nd)\)?"\<close>. The replacement is
  \<^verbatim>\<open>lambda x: x.groups()[0]\<close>; \<^verbatim>\<open>re.sub\<close> takes a callable's None as the empty string.\<close>

definition brackets_regex :: pattern where
  "brackets_regex =
     \<lparr>p_matcher =
        seq (opt (lit (CHR ''(''))) (seq (grp 1 digits12)
          (seq (grp 2 (alt (lits ''th'') (alt (lits ''rd'') (alt (lits ''st'')
                 (alt (lits ''TH'') (lits ''nd''))))))
            (opt (lit (CHR '')''))))),
      p_groups = 2\<rparr>"

definition remove_brackets :: "cleanOSM \<Rightarrow> string \<Rightarrow> py_error + string" where
  "remove_brackets self name =
     (case re_search brackets_regex name of
        Some found \<Rightarrow>
          re_sub brackets_regex
            (\<lambda>x. bind_err (index (groups x) 0)
                    (\<lambda>g. Inr (case g of None \<Rightarrow> [] | Some t \<Rightarrow> t))) name
      | None \<Rightarrow> Inr name)"

text \<open>\<^verbatim>\<open>r"(?<!(Street |France |Center |strict ))(\b\d{1,2}[A-Z]{1}\b)(?! Street| Sikka)"\<close>
  and \<^verbatim>\<open>r"^(\b\d{1,2}\b)$"\<close>\<close>

definition prefix_regex :: pattern where
  "prefix_regex =
     \<lparr>p_matcher =
        seq (neg_lookbehind 7 (grp 1 (alt (lits ''Street '') (alt (lits ''France '')
               (alt (lits ''Center '') (lits ''strict ''))))))
          (seq (grp 2 (seq wordb (seq digits12 (seq (rep 1 1 (chr_if is_upper)) wordb))))
            (neg_lookahead (alt (lits '' Street'') (lits '' Sikka'')))),
      p_groups = 2\<rparr>"

definition prefix_regex_1 :: pattern where
  "prefix_regex_1 =
     \<lparr>p_matcher = seq bol (seq (grp 1 (seq wordb (seq digits12 wordb))) eol),
      p_groups = 1\<rparr>"

definition add_street_prefix :: "cleanOSM \<Rightarrow> string \<Rightarrow> py_error + string" where
  "add_street_prefix self name =
     (case re_search prefix_regex name of
        Some found \<Rightarrow>
          re_sub prefix_regex
            (\<lambda>x. bind_err (index (groups x) 1) (\<lambda>g. str_add (Some ''Street '') g)) name
      | None \<Rightarrow>
          (case re_search prefix_regex_1 name of
             Some found \<Rightarrow>
               re_sub prefix_regex_1
                 (\<lambda>x. bind_err (index (groups x) 0) (\<lambda>g. str_add (Some ''Street '') g)) name
           | None \<Rightarrow> Inr name))"

text \<open>\<^verbatim>\<open>m.groups()[2]+" " + m.groups()[1]\<close>\<close>

definition switch_number :: "match \<Rightarrow> py_error + string" where
  "switch_number m =
     bind_err (index (groups m) 2) (\<lambda>g2.
     bind_err (str_add g2 (Some '' '')) (\<lambda>r.
     bind_err (index (groups m) 1) (\<lambda>g1. str_add (Some r) g1)))"

text \<open>\<^verbatim>\<open>r"(?<!(\d{2} ))(\b\d{1,2}[A-Z]{0,1})\s(Street)(?! \d{2})"\<close>\<close>

definition number_regex :: pattern where
  "number_regex =
     \<lparr>p_matcher =
        seq (neg_lookbehind 3 (grp 1 (seq (rep 2 2 (chr_if is_digit)) (lit (CHR '' '')))))
          (seq (grp 2 (seq wordb (seq digits12 (rep 0 1 (chr_if is_upper)))))
            (seq (chr_if is_space) (seq (grp 3 (lits ''Street''))
              (neg_lookahead (seq (lit (CHR '' '')) (rep 2 2 (chr_if is_digit))))))),
      p_groups = 3\<rparr>"

definition put_number_after_street :: "cleanOSM \<Rightarrow> string \<Rightarrow> py_error + string" where
  "put_number_after_street self name =
     (case re_search number_regex name of
        Some found \<Rightarrow> re_sub number_regex switch_number name
      | None \<Rightarrow> Inr name)"

definition remove_non_street_values :: "cleanOSM \<Rightarrow> string \<Rightarrow> py_error + string" where
  "remove_non_street_values self name =
     (if \<exists>value \<in> set (expected_values self). contains name value then Inr name
      else Inr ''None'')"

text \<open>\<^verbatim>\<open>extract_street\<close>: the outer loop runs over \<^verbatim>\<open>['-', ',']\<close>, the inner one over
  the pieces of the split; the first piece holding an expected value is returned.\<close>

fun first_part :: "cleanOSM \<Rightarrow> string list \<Rightarrow> string option" where
  "first_part self [] = None"
| "first_part self (name_part # ps) =
     (if \<exists>value \<in> set (expected_values self). contains name_part value then Some name_part
      else first_part self ps)"

fun extract_loop :: "cleanOSM \<Rightarrow> char list \<Rightarrow> string \<Rightarrow> string" where
  "extract_loop self [] name = name"
| "extract_loop self (char # chars) name =
     (if char \<in> set name then
        (case first_part self (split_chr char [] name) of
           Some name_part \<Rightarrow> name_part
         | None \<Rightarrow> extract_loop self chars name)
      else extract_loop self chars name)"

definition extract_street :: "cleanOSM \<Rightarrow> string \<Rightarrow> py_error + string" where
  "extract_street self name = Inr (extract_loop self [CHR ''-'', CHR '',''] name)"

definition clean_street_name :: "cleanOSM \<Rightarrow> py_error + string" where
  "clean_street_name self =
     bind_err (update_street_name self) (\<lambda>n0.
     bind_err (remove_brackets self (capwords n0)) (\<lambda>n1.
     bind_err (street_letter_to_uppercase_and_removegap self n1) (\<lambda>n2.
     bind_err (switch_digit_position self n2) (\<lambda>n3.
     bind_err (remove_hypen_space_and_switch self n3) (\<lambda>n4.
     bind_err (put_number_after_street self n4) (\<lambda>n5.
     bind_err (add_street_prefix self n5) (\<lambda>n6.
     bind_err (remove_non_street_values self n6) (\<lambda>n7.
     if n7 \<noteq> ''None'' then extract_street self n7 else Inr n7))))))))"

subsection \<open>City names\<close>

text \<open>\<^verbatim>\<open>is_expected_city\<close> returns the first expected value that occurs in the
  title-cased input, as \<^verbatim>\<open>(True, value)\<close>, or \<^verbatim>\<open>(False, '')\<close>.\<close>

fun expected_city_loop :: "string \<Rightarrow> string list \<Rightarrow> bool \<times> string" where
  "expected_city_loop titled [] = (False, [])"
| "expected_city_loop titled (value # vs) =
     (if contains titled value then (True, value) else expected_city_loop titled vs)"

definition is_expected_city :: "cleanOSM \<Rightarrow> bool \<times> string" where
  "is_expected_city self = expected_city_loop (capwords (dirty_value self)) (expected_values self)"

text \<open>\<^verbatim>\<open>re.compile(r'^[a-z|A-Z]+.')\<close>\<close>

definition regex_english :: pattern where
  "regex_english =
     \<lparr>p_matcher = seq bol (seq (plus (chr_if letter_or_bar)) any_chr), p_groups = 0\<rparr>"

definition wrong_entry :: "string list" where
  "wrong_entry = [''town'', ''ME-12'', ''AE'', ''San Diego, CA'']"

definition clean_city_name :: "cleanOSM \<Rightarrow> py_error + string" where
  "clean_city_name self =
     (let city_status = is_expected_city self in
      if fst city_status then Inr (snd city_status)
      else if dirty_value self \<in> set (keys (mapping self)) then clean_value self
      else if re_search regex_english (dirty_value self) \<noteq> None then
        (if dirty_value self \<in> set wrong_entry then set_to_none self
         else Inr (capwords (dirty_value self)))
      else set_to_none self)"

section \<open>\<^verbatim>\<open>convertToCSV.py\<close>: the tables and \<^verbatim>\<open>shape_element\<close>\<close>

text \<open>\<^verbatim>\<open>LOWER_COLON = re.compile(r'^([a-z]|_)+:([a-z]|_)+')\<close>\<close>

definition LOWER_COLON :: pattern where
  "LOWER_COLON =
     \<lparr>p_matcher =
        seq bol (seq (plus (grp 1 (alt (chr_if is_lower) (lit (CHR ''_'')))))
          (seq (lit (CHR '':'')) (plus (grp 2 (alt (chr_if is_lower) (lit (CHR ''_''))))))),
      p_groups = 2\<rparr>"

text \<open>\<^verbatim>\<open>PROBLEMCHARS = re.compile(r'[=\+/&<>;\'"\?%#$@\,\. \t\r\n]')\<close>\<close>

definition problem_set :: "char list" where
  "problem_set =
     [CHR ''='', CHR ''+'', CHR ''/'', CHR ''&'', CHR ''<'', CHR ''>'', CHR '';'', CHR 0x27,
      CHR 0x22, CHR ''?'', CHR ''%'', CHR ''#'', CHR ''$'', CHR ''@'', CHR '','', CHR ''.'',
      CHR '' '', CHR 0x09, CHR 0x0D, CHR 0x0A]"

definition PROBLEMCHARS :: pattern where
  "PROBLEMCHARS = \<lparr>p_matcher = chr_if (\<lambda>c. c \<in> set problem_set), p_groups = 0\<rparr>"

text \<open>\<^verbatim>\<open>ARABICKEY = re.compile(r'((\:ar)|\b(ar))$$')\<close>\<close>

definition ARABICKEY :: pattern where
  "ARABICKEY =
     \<lparr>p_matcher =
        seq (grp 1 (alt (grp 2 (lits '':ar'')) (seq wordb (grp 3 (lits ''ar'')))))
          (seq eol eol),
      p_groups = 3\<rparr>"

definition mapping_street_name :: dict where
  "mapping_street_name =
     [(''St.'', ''Street''), (''St'', ''Street''), (''street'', ''Street''),
      (''Rd.'', ''Road''), (''Rd'', ''Road''), (''road'', ''Road'')]"

definition expected_street_name :: "string list" where
  "expected_street_name =
     [''Street'', ''Avenue'', ''Boulevard'', ''Drive'', ''Court'', ''Place'', ''Square'',
      ''Lane'', ''Road'', ''Trail'', ''Parkway'', ''Commons'', ''Slipway'', ''Way'', ''Walk'',
      ''Highway'', ''Roundabout'', ''Exit'', ''Link'', ''Track'', ''Corniche'']"

definition mapping_city :: dict where
  "mapping_city =
     [(''A Ain'', ''Al Ain''), (''Al AIn'', ''Al Ain''), (''sharja'', ''Sharjah''),
      (''Duba'', ''Dubai''), (''Mussafah M 45- Abu Dhabi'', ''Mussafah''),
      (''Musaffah Industrial Area'', ''Mussafah''), (''Duabi'', ''Dubai''),
      (''Al Safa 1'', ''Dubai''), (''Al Safa 2'', ''Dubai''), (''Jumeirah 1'', ''Dubai''),
      (''Jumeirah 3'', ''Dubai''), (''Jumeirah Village Circle'', ''Dubai''),
      (''Sjarjah'', ''Sharjah''), (''samha'', ''Al Samha''), (''JVT'', ''Dubai''),
      (''Al Quoz Industrial Area 2'', ''Dubai''), (''Jumeirah Lakes Towers'', ''Dubai''),
      (''JLT Cluster Y'', ''Dubai''), (''Karama'', ''Al Karama'')]"

definition expected_cities :: "string list" where
  "expected_cities =
     [''Abu Dhabi'', ''Dubai'', ''Dibba Al-Fujairah'', ''Al Ain'', ''Fujairah'', ''Sharjah'',
      ''Al Karama'', ''Al Nud'', ''Mussafah'', ''Ajman'', ''Saadiyat Island'',
      ''Al Reem Island'', ''Khalifa City A'', ''Khalifa City B'', ''Khalifa City C'',
      ''Al Towayya'', ''Hatta'', ''Al Khan'', ''Al Maryah Island'',
      ''Muhammad Bin Zayed City'', ''Al Karama'', ''Al Samha'', ''Umm Al Quwain'',
      ''Ras al Khaimah'', ''Yas Island'', ''Hatta'']"

definition mapping_surface :: dict where
  "mapping_surface =
     [(''running surface'', ''running_surface''), (''Elevated'', ''elevated''),
      (''paving_stoness'', ''paving_stones''), (''pavin'', ''paving''),
      (''paving stones'', ''paving_stones''), (''unpaveds'', ''unpaved''),
      (''unpaved'' @ [CHR 0x60], ''unpaved''), (''paving'' @ [CHR 0x60], ''paving''),
      (''asphalt'' @ [CHR 0x60], ''asphalt'')]"

definition mapping_building :: dict where
  "mapping_building =
     [(''Airport_terminal'', ''terminal''), (''Office_And_entrance'', ''commercial''),
      (''MAJ Building'', ''yes''), (''Complex_A_&_B'', ''yes''), (''yes;mosque'', ''mosque''),
      (''Tourist_Exhibition'', ''yes''), (''Gate 3'', ''yes''), (''Offices'', ''commercial''),
      (''office'', ''commercial'')]"

definition NODE_FIELDS :: "string list" where
  "NODE_FIELDS = [''id'', ''lat'', ''lon'', ''user'', ''uid'', ''version'', ''changeset'', ''timestamp'']"

definition WAY_FIELDS :: "string list" where
  "WAY_FIELDS = [''id'', ''user'', ''uid'', ''version'', ''changeset'', ''timestamp'']"

text \<open>An XML element as \<^verbatim>\<open>ElementTree\<close> gives it: tag name, attributes, children.
  \<^verbatim>\<open>element.iter(name)\<close> lists the element and its descendants with that tag name, in
  document order; \<^verbatim>\<open>element.get(k)\<close> is None for a missing attribute and
  \<^verbatim>\<open>element.attrib[k]\<close> raises KeyError.\<close>

datatype element = Element (tag: string) (attrib: dict) (children: "element list")

fun iter :: "string \<Rightarrow> element \<Rightarrow> element list" where
  "iter name (Element t a cs) =
     (if t = name then [Element t a cs] else []) @ concat (map (iter name) cs)"

definition get :: "element \<Rightarrow> string \<Rightarrow> string option" where
  "get e k = map_of (attrib e) k"

text \<open>The dictionaries \<^verbatim>\<open>tag_attrib\<close> and \<^verbatim>\<open>nd_attrib\<close>, with their fixed keys.\<close>

record tag_row =
  row_id :: "string option"
  row_key :: string
  row_value :: string
  row_type :: string

record way_node =
  nd_id :: "string option"
  node_id :: string
  position :: nat

text \<open>The result of \<^verbatim>\<open>shape_element\<close>: the dictionary of the node branch, the
  dictionary of the way branch, or None when the element is neither.\<close>

datatype shaped =
    Node (node: "(string \<times> string option) list") (node_tags: "tag_row list")
  | Way (way: "(string \<times> string option) list") (way_nodes: "way_node list")
        (way_tags: "tag_row list")
  | PyNone

text \<open>\<^verbatim>\<open>a, b = xs\<close> raises ValueError unless \<open>xs\<close> has two elements.\<close>

definition unpack2 :: "string list \<Rightarrow> py_error + string \<times> string" where
  "unpack2 xs = (case xs of [a, b] \<Rightarrow> Inr (a, b) | _ \<Rightarrow> Inl ValueError)"

text \<open>The body of the loop over \<^verbatim>\<open>element.iter("tag")\<close> in the node branch: None for
  \<^verbatim>\<open>continue\<close>, else the row appended to \<^verbatim>\<open>tags\<close>.\<close>

definition node_tag ::
  "element \<Rightarrow> pattern \<Rightarrow> pattern \<Rightarrow> string \<Rightarrow> element \<Rightarrow> py_error + tag_row option" where
  "node_tag element problem_chars arabic_chars default_tag_type tg =
     bind_err (getitem (attrib tg) ''k'') (\<lambda>k.
       if re_search problem_chars k \<noteq> None then Inr None
       else if re_search arabic_chars k \<noteq> None then Inr None
       else
         bind_err
           (if k = ''addr:street'' then
              bind_err (getitem (attrib tg) ''v'') (\<lambda>v. clean_street_name
                \<lparr>dirty_value = v, mapping = mapping_street_name,
                 expected_values = expected_street_name\<rparr>)
            else if k = ''building'' then
              bind_err (getitem (attrib tg) ''v'') (\<lambda>v. clean_value
                \<lparr>dirty_value = v, mapping = mapping_building, expected_values = []\<rparr>)
            else if k = ''surface'' then
              bind_err (getitem (attrib tg) ''v'') (\<lambda>v. clean_value
                \<lparr>dirty_value = v, mapping = mapping_surface, expected_values = []\<rparr>)
            else if k = ''oneway'' then
              bind_err (getitem (attrib tg) ''v'') (\<lambda>v. set_to_none
                \<lparr>dirty_value = v, mapping = [], expected_values = []\<rparr>)
            else if k = ''addr:city'' then
              bind_err (getitem (attrib tg) ''v'') (\<lambda>v. clean_city_name
                \<lparr>dirty_value = v, mapping = mapping_city, expected_values = expected_cities\<rparr>)
            else getitem (attrib tg) ''v'')
           (\<lambda>val.
         bind_err
           (if re_search LOWER_COLON k \<noteq> None
            then unpack2 (split_once (CHR '':'') k)
            else Inr (default_tag_type, k))
           (\<lambda>(ty, ky).
         Inr (Some \<lparr>row_id = get element ''id'', row_key = ky, row_value = val,
                    row_type = ty\<rparr>))))"

text \<open>The same loop body in the way branch. Its first test reads the module's
  \<^verbatim>\<open>PROBLEMCHARS\<close>, not the argument \<^verbatim>\<open>problem_chars\<close>.\<close>

definition way_tag ::
  "element \<Rightarrow> pattern \<Rightarrow> pattern \<Rightarrow> string \<Rightarrow> element \<Rightarrow> py_error + tag_row option" where
  "way_tag element problem_chars arabic_chars default_tag_type tg =
     bind_err (getitem (attrib tg) ''k'') (\<lambda>k.
       if re_search PROBLEMCHARS k \<noteq> None then Inr None
       else if re_search arabic_chars k \<noteq> None then Inr None
       else
         bind_err
           (if k = ''addr:street'' then
              bind_err (getitem (attrib tg) ''v'') (\<lambda>v. clean_street_name
                \<lparr>dirty_value = v, mapping = mapping_street_name,
                 expected_values = expected_street_name\<rparr>)
            else if k = ''building'' then
              bind_err (getitem (attrib tg) ''v'') (\<lambda>v. clean_value
                \<lparr>dirty_value = v, mapping = mapping_building, expected_values = []\<rparr>)
            else if k = ''surface'' then
              bind_err (getitem (attrib tg) ''v'') (\<lambda>v. clean_value
                \<lparr>dirty_value = v, mapping = mapping_surface, expected_values = []\<rparr>)
            else if k = ''oneway'' then
              bind_err (getitem (attrib tg) ''v'') (\<lambda>v. set_to_none
                \<lparr>dirty_value = v, mapping = [], expected_values = []\<rparr>)
            else if k = ''addr:city'' then
              bind_err (getitem (attrib tg) ''v'') (\<lambda>v. clean_city_name
                \<lparr>dirty_value = v, mapping = mapping_city, expected_values = expected_cities\<rparr>)
            else getitem (attrib tg) ''v'')
           (\<lambda>val.
         bind_err
           (if re_search LOWER_COLON k \<noteq> None
            then unpack2 (split_once (CHR '':'') k)
            else Inr (default_tag_type, k))
           (\<lambda>(ty, ky).
         Inr (Some \<lparr>row_id = get element ''id'', row_key = ky, row_value = val,
                    row_type = ty\<rparr>))))"

text \<open>A loop that appends the rows its body produces and stops at the first exception.\<close>

fun collect :: "('a \<Rightarrow> py_error + 'b option) \<Rightarrow> 'a list \<Rightarrow> py_error + 'b list" where
  "collect body [] = Inr []"
| "collect body (x # xs) =
     (case body x of
        Inl e \<Rightarrow> Inl e
      | Inr None \<Rightarrow> collect body xs
      | Inr (Some row) \<Rightarrow>
          (case collect body xs of Inl e \<Rightarrow> Inl e | Inr rows \<Rightarrow> Inr (row # rows)))"

text \<open>The loop over \<^verbatim>\<open>element.iter("nd")\<close> with its counter \<^verbatim>\<open>nd_index\<close>.\<close>

fun way_nodes_loop :: "element \<Rightarrow> nat \<Rightarrow> element list \<Rightarrow> py_error + way_node list" where
  "way_nodes_loop element nd_index [] = Inr []"
| "way_nodes_loop element nd_index (nd # nds) =
     (case getitem (attrib nd) ''ref'' of
        Inl e \<Rightarrow> Inl e
      | Inr r \<Rightarrow>
          (case way_nodes_loop element (nd_index + 1) nds of
             Inl e \<Rightarrow> Inl e
           | Inr rows \<Rightarrow>
               Inr (\<lparr>nd_id = get element ''id'', node_id = r, position = nd_index\<rparr> # rows)))"

definition shape_element ::
  "element \<Rightarrow> string list \<Rightarrow> string list \<Rightarrow> pattern \<Rightarrow> pattern \<Rightarrow> string \<Rightarrow> py_error + shaped"
where
  "shape_element element node_attr_fields way_attr_fields problem_chars arabic_chars
     default_tag_type =
     (if tag element = ''node'' then
        bind_err (collect (node_tag element problem_chars arabic_chars default_tag_type)
                    (iter ''tag'' element)) (\<lambda>tags.
        Inr (Node (map (\<lambda>f. (f, get element f)) node_attr_fields) tags))
      else if tag element = ''way'' then
        bind_err (way_nodes_loop element 0 (iter ''nd'' element)) (\<lambda>nodes.
        bind_err (collect (way_tag element problem_chars arabic_chars default_tag_type)
                    (iter ''tag'' element)) (\<lambda>tags.
        Inr (Way (map (\<lambda>f. (f, get element f)) way_attr_fields) nodes tags)))
      else Inr PyNone)"

section \<open>Notions used in the proofs\<close>

text \<open>\<open>binds K m\<close>: every way \<open>m\<close> matches leaves the groups of \<open>K\<close> captured and
  forgets no group captured before. It is used to show that the replacement functions
  never read a group that is None.\<close>

definition binds :: "nat set \<Rightarrow> matcher \<Rightarrow> bool" where
  "binds K m \<longleftrightarrow>
     (\<forall>s i c j c'. (j, c') \<in> set (m s i c) \<longrightarrow> K \<subseteq> dom c' \<and> dom c \<subseteq> dom c')"

text \<open>\<open>single Q m\<close>: \<open>m\<close> matches exactly one character, and does so when the character
  satisfies \<open>Q\<close> (whatever it does with the groups).\<close>

definition single :: "(char \<Rightarrow> bool) \<Rightarrow> matcher \<Rightarrow> bool" where
  "single Q m \<longleftrightarrow>
     (\<forall>s i c j c'. (j, c') \<in> set (m s i c) \<longrightarrow> i < length s \<and> Q (s ! i) \<and> j = Suc i) \<and>
     (\<forall>s i c. i < length s \<and> Q (s ! i) \<longrightarrow> (\<exists>c'. (Suc i, c') \<in> set (m s i c)))"



section \<open>Basic facts\<close>

lemma bind_err_Inr [simp]: "bind_err (Inr x) f = f x"
  by (simp add: bind_err_def)

lemma bind_err_Inl [simp]: "bind_err (Inl e) f = Inl e"
  by (simp add: bind_err_def)

lemma bind_err_eq_Inr: "bind_err r f = Inr y \<longleftrightarrow> (\<exists>x. r = Inr x \<and> f x = Inr y)"
  by (cases r) (auto simp: bind_err_def)

lemma getitem_in_keys: "k \<in> set (keys d) \<Longrightarrow> \<exists>v. map_of d k = Some v \<and> getitem d k = Inr v"
  by (cases "map_of d k") (auto simp: keys_def getitem_def map_of_eq_None_iff)

section \<open>Facts about the matcher\<close>

lemma in_chr_if:
  "(j, c') \<in> set (chr_if P s i c) \<longleftrightarrow> i < length s \<and> P (s ! i) \<and> j = Suc i \<and> c' = c"
  by (auto simp: chr_if_def)

lemma in_lit:
  "(j, c') \<in> set (lit a s i c) \<longleftrightarrow> i < length s \<and> s ! i = a \<and> j = Suc i \<and> c' = c"
  by (auto simp: lit_def in_chr_if)

lemma in_any_chr:
  "(j, c') \<in> set (any_chr s i c) \<longleftrightarrow> i < length s \<and> s ! i \<noteq> CHR 0x0A \<and> j = Suc i \<and> c' = c"
  by (auto simp: any_chr_def in_chr_if)

lemma in_seq:
  "(j, c') \<in> set (seq m1 m2 s i c) \<longleftrightarrow>
     (\<exists>k c1. (k, c1) \<in> set (m1 s i c) \<and> (j, c') \<in> set (m2 s k c1))"
  by (auto simp: seq_def)

lemma in_alt:
  "(j, c') \<in> set (alt m1 m2 s i c) \<longleftrightarrow> (j, c') \<in> set (m1 s i c) \<or> (j, c') \<in> set (m2 s i c)"
  by (auto simp: alt_def)

lemma in_grp:
  "(j, c') \<in> set (grp k m s i c) \<longleftrightarrow> (\<exists>c1. (j, c1) \<in> set (m s i c) \<and> c' = c1(k \<mapsto> (i, j)))"
  by (auto simp: grp_def)

lemma in_bol: "(j, c') \<in> set (bol s i c) \<longleftrightarrow> i = 0 \<and> j = 0 \<and> c' = c"
  by (auto simp: bol_def)

lemma in_rep_Suc:
  "(j, c') \<in> set (rep lo (Suc hi) m s i c) \<longleftrightarrow>
     (\<exists>i1 c1. (i1, c1) \<in> set (m s i c) \<and> (j, c') \<in> set (rep (lo - 1) hi m s i1 c1)) \<or>
     (lo = 0 \<and> j = i \<and> c' = c)"
  by (cases "lo = 0") auto

lemma in_rep_0: "(j, c') \<in> set (rep lo 0 m s i c) \<longleftrightarrow> lo = 0 \<and> j = i \<and> c' = c"
  by (cases "lo = 0") auto

lemma match_at_Some:
  "match_at p s i = Some m \<longleftrightarrow>
     (\<exists>j c rest. p_matcher p s i (\<lambda>k. None) = (j, c) # rest \<and>
        m = \<lparr>m_string = s, m_start = i, m_end = j, m_caps = c, m_ngroups = p_groups p\<rparr>)"
  by (auto simp: match_at_def split: list.splits)

lemma match_at_None: "match_at p s i = None \<longleftrightarrow> p_matcher p s i (\<lambda>k. None) = []"
  by (auto simp: match_at_def split: list.splits)

lemma match_at_SomeD:
  "match_at p s i = Some m \<Longrightarrow>
     (m_end m, m_caps m) \<in> set (p_matcher p s i (\<lambda>k. None)) \<and> m_start m = i \<and>
     m_string m = s \<and> m_ngroups m = p_groups p"
  by (auto simp: match_at_def split: list.splits)

lemma first_match_None: "first_match p s is = None \<longleftrightarrow> (\<forall>i \<in> set is. match_at p s i = None)"
  by (induction "is") (auto split: option.splits)

lemma first_match_Some:
  "first_match p s is = Some m \<Longrightarrow> \<exists>i \<in> set is. match_at p s i = Some m"
  by (induction "is") (auto split: option.splits)

lemma search_from_None:
  "search_from p s st = None \<longleftrightarrow> (\<forall>i. st \<le> i \<and> i \<le> length s \<longrightarrow> match_at p s i = None)"
  by (auto simp: search_from_def first_match_None)

lemma search_from_Some:
  "search_from p s st = Some m \<Longrightarrow> \<exists>i. st \<le> i \<and> i \<le> length s \<and> match_at p s i = Some m"
proof -
  assume "search_from p s st = Some m"
  then obtain i where "i \<in> set [st..<Suc (length s)]" "match_at p s i = Some m"
    unfolding search_from_def by (blast dest: first_match_Some)
  then show ?thesis
    by (intro exI [of _ i]) auto
qed

lemma re_search_iff:
  "re_search p s \<noteq> None \<longleftrightarrow>
     (\<exists>i j c. i \<le> length s \<and> (j, c) \<in> set (p_matcher p s i (\<lambda>k. None)))"
proof -
  have "match_at p s i \<noteq> None \<longleftrightarrow> (\<exists>j c. (j, c) \<in> set (p_matcher p s i (\<lambda>k. None)))" for i
    unfolding match_at_None by (cases "p_matcher p s i (\<lambda>k. None)") auto
  then show ?thesis
    unfolding re_search_def search_from_None by auto
qed

subsection \<open>Repetition of a one-character body\<close>

text \<open>With a body that matches one character satisfying \<open>Q\<close>, the greedy repetition
  \<^verbatim>\<open>{lo,hi}\<close> started at \<open>i\<close> can stop at exactly the positions \<open>j\<close> that are \<open>lo\<close> to \<open>hi\<close>
  characters further, within the string, with only \<open>Q\<close>-characters in between.\<close>

lemma singleD1:
  assumes "single Q m" and "(j, c') \<in> set (m s i c)"
  shows "i < length s \<and> Q (s ! i) \<and> j = Suc i"
  using assms(1) [unfolded single_def, THEN conjunct1, rule_format, OF assms(2)] .

lemma singleD2:
  assumes "single Q m" and "i < length s" and "Q (s ! i)"
  shows "\<exists>c'. (Suc i, c') \<in> set (m s i c)"
  using assms(1) [unfolded single_def, THEN conjunct2, rule_format, of i s c] assms(2,3)
  by simp

lemma single_chr_if: "single P (chr_if P)"
  unfolding single_def by (simp add: in_chr_if)


lemma run_step:
  "(\<forall>k. i \<le> k \<and> k < j \<longrightarrow> Q (s ! k)) \<longleftrightarrow>
     (i < j \<longrightarrow> Q (s ! i) \<and> (\<forall>k. Suc i \<le> k \<and> k < j \<longrightarrow> Q (s ! k)))"
proof (cases "i < j")
  case True
  have "i \<le> k \<longleftrightarrow> k = i \<or> Suc i \<le> k" for k by auto
  with True show ?thesis by auto
next
  case False
  then show ?thesis by auto
qed

lemma rep_single:
  assumes "single Q m"
  shows "i \<le> length s \<Longrightarrow>
     (\<exists>c'. (j, c') \<in> set (rep lo hi m s i c)) \<longleftrightarrow>
       i + lo \<le> j \<and> j \<le> i + hi \<and> j \<le> length s \<and> (\<forall>k. i \<le> k \<and> k < j \<longrightarrow> Q (s ! k))"
proof (induction hi arbitrary: lo i c)
  case 0
  then show ?case
    unfolding in_rep_0 by auto
next
  case (Suc hi)
  let ?run = "\<lambda>i. \<forall>k. i \<le> k \<and> k < j \<longrightarrow> Q (s ! k)"
  show ?case
  proof
    assume "\<exists>c'. (j, c') \<in> set (rep lo (Suc hi) m s i c)"
    then obtain c' where "(j, c') \<in> set (rep lo (Suc hi) m s i c)" ..
    then consider i1 c1 where "(i1, c1) \<in> set (m s i c)" "(j, c') \<in> set (rep (lo - 1) hi m s i1 c1)"
      | "lo = 0" "j = i"
      unfolding in_rep_Suc by (elim disjE exE conjE)
    then show "i + lo \<le> j \<and> j \<le> i + Suc hi \<and> j \<le> length s \<and> ?run i"
    proof cases
      case 1
      from singleD1 [OF assms 1(1)] have i: "i < length s" "Q (s ! i)" "i1 = Suc i"
        by simp_all
      from 1(2) have "\<exists>c'. (j, c') \<in> set (rep (lo - 1) hi m s (Suc i) c1)"
        unfolding i(3) by (intro exI)
      with Suc.IH [of "Suc i" "lo - 1" c1] i(1)
      have "Suc i + (lo - 1) \<le> j \<and> j \<le> Suc i + hi \<and> j \<le> length s \<and> ?run (Suc i)"
        by simp
      with i(2) show ?thesis
        by (subst run_step) auto
    next
      case 2
      with Suc.prems show ?thesis by auto
    qed
  next
    assume r: "i + lo \<le> j \<and> j \<le> i + Suc hi \<and> j \<le> length s \<and> ?run i"
    show "\<exists>c'. (j, c') \<in> set (rep lo (Suc hi) m s i c)"
    proof (cases "i < j")
      case False
      with r have "lo = 0" "j = i" by simp_all
      then show ?thesis
        unfolding in_rep_Suc by blast
    next
      case True
      with r have i: "i < length s" "Q (s ! i)" and run: "?run (Suc i)"
        by (simp_all add: run_step [of i j])
      from singleD2 [OF assms i] obtain c1 where c1: "(Suc i, c1) \<in> set (m s i c)" ..
      from r True run i(1)
      have "Suc i + (lo - 1) \<le> j \<and> j \<le> Suc i + hi \<and> j \<le> length s \<and> ?run (Suc i)"
        by auto
      with Suc.IH [of "Suc i" "lo - 1" c1] i(1)
      obtain c' where "(j, c') \<in> set (rep (lo - 1) hi m s (Suc i) c1)"
        by auto
      with c1 show ?thesis
        unfolding in_rep_Suc by blast
    qed
  qed
qed

lemma in_plus_single:
  assumes "single Q m" and "i \<le> length s"
  shows "(\<exists>c'. (j, c') \<in> set (plus m s i c)) \<longleftrightarrow>
           i < j \<and> j \<le> length s \<and> (\<forall>k. i \<le> k \<and> k < j \<longrightarrow> Q (s ! k))"
  unfolding plus_def rep_single [OF assms] using assms(2) by auto

subsection \<open>What \<^verbatim>\<open>regex_english\<close> and \<^verbatim>\<open>LOWER_COLON\<close> match\<close>

text \<open>\<^verbatim>\<open>^[a-z|A-Z]+.\<close> is found in a string exactly when its first character is a
  letter or a bar and a second character exists and is no newline.\<close>

lemma letter_or_bar_newline: "\<not> letter_or_bar (CHR 0x0A)"
  by code_simp

lemma regex_english_index:
  "re_search regex_english s \<noteq> None \<longleftrightarrow>
     1 < length s \<and> letter_or_bar (s ! 0) \<and> s ! 1 \<noteq> CHR 0x0A"
proof -
  let ?L = "chr_if letter_or_bar"
  have "re_search regex_english s \<noteq> None \<longleftrightarrow>
      (\<exists>k. (\<exists>c1. (k, c1) \<in> set (plus ?L s 0 (\<lambda>k. None))) \<and> k < length s \<and> s ! k \<noteq> CHR 0x0A)"
    unfolding re_search_iff regex_english_def pattern.simps in_seq in_bol in_any_chr
    by auto
  also have "\<dots> \<longleftrightarrow> (\<exists>k. 0 < k \<and> (\<forall>x. x < k \<longrightarrow> letter_or_bar (s ! x)) \<and>
      k < length s \<and> s ! k \<noteq> CHR 0x0A)"
    unfolding in_plus_single [OF single_chr_if le0] by auto
  also have "\<dots> \<longleftrightarrow> 1 < length s \<and> letter_or_bar (s ! 0) \<and> s ! 1 \<noteq> CHR 0x0A"
  proof
    assume "\<exists>k. 0 < k \<and> (\<forall>x. x < k \<longrightarrow> letter_or_bar (s ! x)) \<and> k < length s \<and>
      s ! k \<noteq> CHR 0x0A"
    then obtain k where k: "0 < k" "\<forall>x. x < k \<longrightarrow> letter_or_bar (s ! x)" "k < length s"
      "s ! k \<noteq> CHR 0x0A"
      by blast
    show "1 < length s \<and> letter_or_bar (s ! 0) \<and> s ! 1 \<noteq> CHR 0x0A"
    proof (cases "k = 1")
      case True
      with k show ?thesis by simp
    next
      case False
      with k(1) have "1 < k" by simp
      with k(2) have "letter_or_bar (s ! 1)" by blast
      with letter_or_bar_newline have "s ! 1 \<noteq> CHR 0x0A" by metis
      with k show ?thesis by simp
    qed
  next
    assume "1 < length s \<and> letter_or_bar (s ! 0) \<and> s ! 1 \<noteq> CHR 0x0A"
    then show "\<exists>k. 0 < k \<and> (\<forall>x. x < k \<longrightarrow> letter_or_bar (s ! x)) \<and> k < length s \<and>
      s ! k \<noteq> CHR 0x0A"
      by (intro exI [of _ 1]) simp
  qed
  finally show ?thesis .
qed

lemma regex_english_matches:
  "re_search regex_english s \<noteq> None \<longleftrightarrow>
     (\<exists>a b r. s = a # b # r \<and> letter_or_bar a \<and> b \<noteq> CHR 0x0A)"
  unfolding regex_english_index
proof (cases s)
  case Nil
  then show "1 < length s \<and> letter_or_bar (s ! 0) \<and> s ! 1 \<noteq> CHR 0x0A \<longleftrightarrow>
     (\<exists>a b r. s = a # b # r \<and> letter_or_bar a \<and> b \<noteq> CHR 0x0A)" by simp
next
  case (Cons a t)
  then show "1 < length s \<and> letter_or_bar (s ! 0) \<and> s ! 1 \<noteq> CHR 0x0A \<longleftrightarrow>
     (\<exists>a b r. s = a # b # r \<and> letter_or_bar a \<and> b \<noteq> CHR 0x0A)"
    by (cases t) auto
qed




lemma lower_colon_has_colon:
  assumes "re_search LOWER_COLON k \<noteq> None"
  shows "CHR '':'' \<in> set k"
proof -
  from assms obtain m where "re_search LOWER_COLON k = Some m" by blast
  then obtain i where "match_at LOWER_COLON k i = Some m"
    by (auto simp: re_search_def dest: search_from_Some)
  then obtain j c where "(j, c) \<in> set (p_matcher LOWER_COLON k i (\<lambda>k. None))"
    by (blast dest: match_at_SomeD)
  then obtain n where "n < length k" "k ! n = CHR '':''"
    by (auto simp: LOWER_COLON_def in_seq in_lit)
  then show ?thesis
    by (metis nth_mem)
qed

lemma split_once_colon:
  assumes "CHR '':'' \<in> set k"
  shows "\<exists>a b. split_once (CHR '':'') k = [a, b] \<and> a @ '':'' @ b = k \<and> CHR '':'' \<notin> set a"
proof -
  let ?P = "\<lambda>c. c \<noteq> CHR '':''"
  from assms have "dropWhile ?P k \<noteq> []" by (auto simp: dropWhile_eq_Nil_conv)
  moreover have "hd (dropWhile ?P k) = CHR '':''"
    using hd_dropWhile [OF \<open>dropWhile ?P k \<noteq> []\<close>] by simp
  ultimately have "dropWhile ?P k = CHR '':'' # tl (dropWhile ?P k)"
    by (cases "dropWhile ?P k") auto
  then have "takeWhile ?P k @ '':'' @ tl (dropWhile ?P k) = k"
    by (metis takeWhile_dropWhile_id append_Cons append_Nil)
  moreover have "CHR '':'' \<notin> set (takeWhile ?P k)"
    by (auto dest: set_takeWhileD)
  ultimately show ?thesis using assms by (simp add: split_once_def)
qed

lemma unpack2_split_once:
  assumes "re_search LOWER_COLON k \<noteq> None"
  shows "\<exists>a b. unpack2 (split_once (CHR '':'') k) = Inr (a, b) \<and> a @ '':'' @ b = k \<and>
           CHR '':'' \<notin> set a"
  using split_once_colon [OF lower_colon_has_colon [OF assms]]
  by (auto simp: unpack2_def)

section \<open>Substitution and captured groups\<close>

text \<open>\<^verbatim>\<open>re.sub\<close> returns a string whenever the replacement function does on every match
  of the pattern.\<close>

lemma sub_loop_total:
  assumes "\<forall>m i. match_at p s i = Some m \<longrightarrow> (\<exists>r. repl m = Inr r)"
  shows "\<exists>r. sub_loop p repl s st i n = Inr r"
  using assms
proof (induction p repl s st i n rule: sub_loop.induct)
  case (1 p repl s st i n)
  show ?case
  proof (cases "search_from p s st")
    case None
    then show ?thesis by (subst sub_loop.simps) simp
  next
    case (Some m)
    show ?thesis
    proof (cases "i = m_start m \<and> i = m_end m \<and> 0 < n")
      case True
      from "1.IH"(1) [OF Some True "1.prems"] Some True show ?thesis
        by (subst sub_loop.simps) simp
    next
      case False
      from Some obtain j where "match_at p s j = Some m"
        by (blast dest: search_from_Some)
      with "1.prems" obtain r where r: "repl m = Inr r" by blast
      from "1.IH"(2) [OF Some False r "1.prems"] obtain rest
        where "sub_loop p repl s (max (m_end m) (Suc (m_start m))) (m_end m) (Suc n) = Inr rest"
        by blast
      moreover have "sub_loop p repl s st i n =
          (case repl m of
             Inl err \<Rightarrow> Inl err
           | Inr r \<Rightarrow>
               (case sub_loop p repl s (max (m_end m) (Suc (m_start m))) (m_end m) (Suc n) of
                  Inl err \<Rightarrow> Inl err
                | Inr rest \<Rightarrow> Inr (slice s i (m_start m) @ r @ rest)))"
        by (subst sub_loop.simps) (simp only: Some option.case False if_False)
      ultimately show ?thesis
        using r by simp
    qed
  qed
qed

lemma re_sub_total:
  assumes "\<And>m i. match_at p s i = Some m \<Longrightarrow> \<exists>r. repl m = Inr r"
  shows "\<exists>r. re_sub p repl s = Inr r"
  unfolding re_sub_def using assms by (intro sub_loop_total) blast

text \<open>The rules for \<open>binds\<close>, and the groups each pattern of the pipeline binds.\<close>

lemma bindsI:
  assumes "\<And>s i c j c'. (j, c') \<in> set (m s i c) \<Longrightarrow> K \<subseteq> dom c' \<and> dom c \<subseteq> dom c'"
  shows "binds K m"
  unfolding binds_def using assms by (intro allI impI)

lemma bindsD:
  assumes "binds K m" and "(j, c') \<in> set (m s i c)"
  shows "K \<subseteq> dom c' \<and> dom c \<subseteq> dom c'"
  using assms(1) [unfolded binds_def, rule_format, OF assms(2)] .

lemma binds_weaken: "binds K m \<Longrightarrow> K' \<subseteq> K \<Longrightarrow> binds K' m"
  by (rule bindsI) (use bindsD in fast)

lemma binds_chr_if: "binds {} (chr_if P)"
  by (rule bindsI) (simp add: in_chr_if)

lemma binds_lit: "binds {} (lit a)"
  by (simp add: lit_def binds_chr_if)

lemma binds_any_chr: "binds {} any_chr"
  by (simp add: any_chr_def binds_chr_if)

lemma binds_eps: "binds {} eps"
  by (rule bindsI) (simp add: eps_def)

lemma binds_wordb: "binds {} wordb"
  by (rule bindsI) (simp add: wordb_def split: if_splits)

lemma binds_bol: "binds {} bol"
  by (rule bindsI) (simp add: bol_def split: if_splits)

lemma binds_eol: "binds {} eol"
  by (rule bindsI) (simp add: eol_def split: if_splits)

lemma binds_neg_lookbehind: "binds {} (neg_lookbehind w m)"
  by (rule bindsI) (simp add: neg_lookbehind_def split: if_splits)

lemma binds_neg_lookahead: "binds {} (neg_lookahead m)"
  by (rule bindsI) (simp add: neg_lookahead_def split: if_splits)

lemma binds_seq:
  assumes "binds K1 m1" and "binds K2 m2"
  shows "binds (K1 \<union> K2) (seq m1 m2)"
proof (rule bindsI)
  fix s i c j c'
  assume "(j, c') \<in> set (seq m1 m2 s i c)"
  then obtain i1 c1 where 1: "(i1, c1) \<in> set (m1 s i c)" and 2: "(j, c') \<in> set (m2 s i1 c1)"
    unfolding in_seq by (elim exE conjE)
  from bindsD [OF assms(1) 1] bindsD [OF assms(2) 2]
  show "K1 \<union> K2 \<subseteq> dom c' \<and> dom c \<subseteq> dom c'"
    by (simp add: subset_iff)
qed

lemma binds_alt:
  assumes "binds K m1" and "binds K m2"
  shows "binds K (alt m1 m2)"
proof (rule bindsI)
  fix s i c j c'
  assume "(j, c') \<in> set (alt m1 m2 s i c)"
  then have "(j, c') \<in> set (m1 s i c) \<or> (j, c') \<in> set (m2 s i c)"
    unfolding in_alt .
  then show "K \<subseteq> dom c' \<and> dom c \<subseteq> dom c'"
    using bindsD [OF assms(1)] bindsD [OF assms(2)] by (elim disjE)
qed

lemma binds_grp:
  assumes "binds K m"
  shows "binds (insert k K) (grp k m)"
proof (rule bindsI)
  fix s i c j c'
  assume "(j, c') \<in> set (grp k m s i c)"
  then obtain c1 where 1: "(j, c1) \<in> set (m s i c)" and 2: "c' = c1(k \<mapsto> (i, j))"
    unfolding in_grp by (elim exE conjE)
  from bindsD [OF assms 1] show "insert k K \<subseteq> dom c' \<and> dom c \<subseteq> dom c'"
    unfolding 2 by (simp add: subset_iff)
qed

lemma binds_lits: "binds {} (lits w)"
proof (induction w)
  case Nil
  show ?case by (simp add: binds_eps)
next
  case (Cons a w)
  from binds_seq [OF binds_lit [of a] Cons] show ?case by simp
qed

lemma rep_keeps:
  assumes "binds K m"
  shows "(j, c') \<in> set (rep lo hi m s i c) \<Longrightarrow> dom c \<subseteq> dom c'"
proof (induction hi arbitrary: lo i c)
  case 0
  then have "c' = c" unfolding in_rep_0 by (elim conjE)
  then show ?case by simp
next
  case (Suc hi)
  from Suc.prems
  have "(\<exists>i1 c1. (i1, c1) \<in> set (m s i c) \<and> (j, c') \<in> set (rep (lo - 1) hi m s i1 c1)) \<or>
     (lo = 0 \<and> j = i \<and> c' = c)"
    unfolding in_rep_Suc .
  then show ?case
  proof (elim disjE exE conjE)
    fix i1 c1
    assume 1: "(i1, c1) \<in> set (m s i c)" and 2: "(j, c') \<in> set (rep (lo - 1) hi m s i1 c1)"
    from bindsD [OF assms 1] Suc.IH [OF 2] show ?thesis
      by (simp add: subset_iff)
  next
    assume "c' = c"
    then show ?thesis by simp
  qed
qed

lemma binds_rep:
  assumes "binds K m"
  shows "binds {} (rep lo hi m)"
  by (rule bindsI) (simp add: rep_keeps [OF assms] del: rep.simps)

lemma binds_opt: "binds K m \<Longrightarrow> binds {} (opt m)"
  unfolding opt_def by (rule binds_rep)

lemma binds_plus:
  assumes "binds K m"
  shows "binds {} (plus m)"
  by (rule bindsI) (simp add: plus_def rep_keeps [OF assms] del: rep.simps)

lemma binds_match_at:
  assumes "binds K (p_matcher p)" and "match_at p s i = Some m" and "k \<in> K"
  shows "\<exists>a b. m_caps m k = Some (a, b)"
proof -
  from assms(2) have "(m_end m, m_caps m) \<in> set (p_matcher p s i (\<lambda>k. None))"
    by (simp add: match_at_SomeD)
  from bindsD [OF assms(1) this] assms(3) have "k \<in> dom (m_caps m)"
    by (simp add: subset_iff)
  then show ?thesis
    by (cases "m_caps m k") (simp_all add: dom_def)
qed

lemma index_groups:
  assumes "match_at p s i = Some m" and "j < p_groups p"
  shows "index (groups m) j = Inr (map_option (\<lambda>(a, b). slice s a b) (m_caps m (Suc j)))"
proof -
  from assms(1) have "m_ngroups m = p_groups p" "m_string m = s"
    by (simp_all add: match_at_SomeD)
  with assms(2) show ?thesis
    unfolding index_def groups_def by (simp del: upt_Suc)
qed

lemma group_present:
  assumes "binds K (p_matcher p)" and "match_at p s i = Some m" and "Suc j \<in> K"
    and "j < p_groups p"
  shows "\<exists>t. index (groups m) j = Inr (Some t)"
proof -
  from binds_match_at [OF assms(1,2,3)] obtain a b where "m_caps m (Suc j) = Some (a, b)"
    by (elim exE)
  with index_groups [OF assms(2,4)] show ?thesis by simp
qed

lemma binds_digits12: "binds {} digits12"
  unfolding digits12_def by (rule binds_rep [OF binds_chr_if])

lemma binds_grp1: "binds {} m \<Longrightarrow> binds {k} (grp k m)"
  by (rule binds_grp)

lemmas binds_atoms =
  binds_chr_if binds_lit binds_any_chr binds_eps binds_wordb binds_bol binds_eol
  binds_neg_lookbehind binds_neg_lookahead binds_lits binds_digits12
  binds_opt [OF binds_chr_if] binds_opt [OF binds_lit] binds_rep [OF binds_chr_if]

lemma binds_letter_regex: "binds {1, 2} (p_matcher letter_regex)"
proof -
  have "binds ({1} \<union> ({} \<union> ({} \<union> ({2} \<union> {})))) (p_matcher letter_regex)"
    unfolding letter_regex_def pattern.simps
    by (intro binds_seq binds_grp1 binds_atoms)
  then show ?thesis
    by (rule binds_weaken) simp
qed

lemma binds_switch_regex: "binds {1, 2} (p_matcher switch_regex)"
proof -
  have "binds ({} \<union> ({1} \<union> ({2} \<union> {}))) (p_matcher switch_regex)"
    unfolding switch_regex_def pattern.simps
    by (intro binds_seq binds_grp1 binds_atoms)
  then show ?thesis
    by (rule binds_weaken) simp
qed

lemma binds_hyphen_regex: "binds {2, 3} (p_matcher hyphen_regex)"
proof -
  have "binds ({} \<union> ({2} \<union> ({} \<union> ({3} \<union> {})))) (p_matcher hyphen_regex)"
    unfolding hyphen_regex_def pattern.simps
    by (intro binds_seq binds_grp1 binds_atoms)
  then show ?thesis
    by (rule binds_weaken) simp
qed

lemma binds_brackets_regex: "binds {1} (p_matcher brackets_regex)"
proof -
  have "binds ({} \<union> ({1} \<union> ({2} \<union> {}))) (p_matcher brackets_regex)"
    unfolding brackets_regex_def pattern.simps
    by (intro binds_seq binds_grp1 binds_alt binds_atoms)
  then show ?thesis
    by (rule binds_weaken) simp
qed

lemma binds_prefix_regex: "binds {2} (p_matcher prefix_regex)"
proof -
  have "binds {} (seq wordb (seq digits12 (seq (rep 1 1 (chr_if is_upper)) wordb)))"
    using binds_seq [OF binds_wordb binds_seq [OF binds_digits12
          binds_seq [OF binds_rep [OF binds_chr_if] binds_wordb]]]
    by simp
  then have "binds ({} \<union> ({2} \<union> {})) (p_matcher prefix_regex)"
    unfolding prefix_regex_def pattern.simps
    by (intro binds_seq binds_grp1 binds_atoms)
  then show ?thesis
    by (rule binds_weaken) simp
qed

lemma binds_prefix_regex_1: "binds {1} (p_matcher prefix_regex_1)"
proof -
  have "binds {} (seq wordb (seq digits12 wordb))"
    using binds_seq [OF binds_wordb binds_seq [OF binds_digits12 binds_wordb]] by simp
  then have "binds ({} \<union> ({1} \<union> {})) (p_matcher prefix_regex_1)"
    unfolding prefix_regex_1_def pattern.simps
    by (intro binds_seq binds_grp1 binds_atoms)
  then show ?thesis
    by (rule binds_weaken) simp
qed

lemma binds_number_regex: "binds {2, 3} (p_matcher number_regex)"
proof -
  have "binds {} (seq wordb (seq digits12 (rep 0 1 (chr_if is_upper))))"
    using binds_seq [OF binds_wordb binds_seq [OF binds_digits12 binds_rep [OF binds_chr_if]]]
    by simp
  then have "binds ({} \<union> ({2} \<union> ({} \<union> ({3} \<union> {})))) (p_matcher number_regex)"
    unfolding number_regex_def pattern.simps
    by (intro binds_seq binds_grp1 binds_atoms)
  then show ?thesis
    by (rule binds_weaken) simp
qed

section \<open>Every step returns\<close>

lemma replfunc_total:
  assumes "match_at letter_regex s i = Some m"
  shows "\<exists>r. replfunc m = Inr r"
proof -
  from group_present [OF binds_letter_regex assms, of 0]
  obtain g0 where g0: "index (groups m) 0 = Inr (Some g0)"
    by (auto simp: letter_regex_def)
  from group_present [OF binds_letter_regex assms, of "Suc 0"]
  obtain g1 where g1: "index (groups m) (Suc 0) = Inr (Some g1)"
    by (auto simp: letter_regex_def)
  show ?thesis
    by (simp add: replfunc_def g0 g1 upper_of_def str_add_def)
qed

lemma switchfunc_total:
  assumes "binds K (p_matcher p)" and "match_at p s i = Some m"
    and "Suc a \<in> K" and "a < p_groups p" and "Suc b \<in> K" and "b < p_groups p"
  shows "\<exists>r. switchfunc m a b = Inr r"
proof -
  from group_present [OF assms(1,2,3,4)] obtain ga where ga: "index (groups m) a = Inr (Some ga)"
    by (elim exE)
  from group_present [OF assms(1,2,5,6)] obtain gb where gb: "index (groups m) b = Inr (Some gb)"
    by (elim exE)
  show ?thesis
    by (simp add: switchfunc_def ga gb upper_of_def str_add_def)
qed

lemma switch_number_total:
  assumes "match_at number_regex s i = Some m"
  shows "\<exists>r. switch_number m = Inr r"
proof -
  from group_present [OF binds_number_regex assms, of 2]
  obtain g2 where g2: "index (groups m) 2 = Inr (Some g2)"
    by (auto simp: number_regex_def)
  from group_present [OF binds_number_regex assms, of "Suc 0"]
  obtain g1 where g1: "index (groups m) (Suc 0) = Inr (Some g1)"
    by (auto simp: number_regex_def)
  show ?thesis
    by (simp add: switch_number_def g1 g2 str_add_def)
qed

lemma street_letter_total: "\<exists>r. street_letter_to_uppercase_and_removegap self name = Inr r"
  unfolding street_letter_to_uppercase_and_removegap_def
  using re_sub_total [of letter_regex name replfunc, OF replfunc_total]
  by (cases "re_search letter_regex name") simp_all

lemma switch_digit_total: "\<exists>r. switch_digit_position self name = Inr r"
proof -
  have "\<exists>r. switchfunc m 1 0 = Inr r" if "match_at switch_regex name i = Some m" for m i
    using switchfunc_total [OF binds_switch_regex that, of 1 0]
    by (simp add: switch_regex_def)
  from re_sub_total [of switch_regex name "\<lambda>x. switchfunc x 1 0", OF this]
  show ?thesis
    unfolding switch_digit_position_def
    by (cases "re_search switch_regex name") simp_all
qed

lemma remove_hypen_total: "\<exists>r. remove_hypen_space_and_switch self name = Inr r"
proof -
  have "\<exists>r. switchfunc m 2 1 = Inr r" if "match_at hyphen_regex name i = Some m" for m i
    using switchfunc_total [OF binds_hyphen_regex that, of 2 1]
    by (simp add: hyphen_regex_def)
  from re_sub_total [of hyphen_regex name "\<lambda>x. switchfunc x 2 1", OF this]
  show ?thesis
    unfolding remove_hypen_space_and_switch_def
    by (cases "re_search hyphen_regex name") simp_all
qed

lemma remove_brackets_total: "\<exists>r. remove_brackets self name = Inr r"
proof -
  let ?repl = "\<lambda>x. bind_err (index (groups x) 0) (\<lambda>g. Inr (case g of None \<Rightarrow> [] | Some t \<Rightarrow> t))"
  have "\<exists>r. ?repl m = Inr r" if "match_at brackets_regex name i = Some m" for m i
    using index_groups [OF that, of 0] by (simp add: brackets_regex_def)
  from re_sub_total [of brackets_regex name ?repl, OF this]
  show ?thesis
    unfolding remove_brackets_def
    by (cases "re_search brackets_regex name") simp_all
qed

lemma add_street_prefix_total: "\<exists>r. add_street_prefix self name = Inr r"
proof -
  let ?repl = "\<lambda>x. bind_err (index (groups x) 1) (\<lambda>g. str_add (Some ''Street '') g)"
  let ?repl1 = "\<lambda>x. bind_err (index (groups x) 0) (\<lambda>g. str_add (Some ''Street '') g)"
  have "\<exists>r. ?repl m = Inr r" if "match_at prefix_regex name i = Some m" for m i
    using group_present [OF binds_prefix_regex that, of 1]
    by (auto simp: prefix_regex_def str_add_def)
  from re_sub_total [of prefix_regex name ?repl, OF this]
  have a: "\<exists>r. re_sub prefix_regex ?repl name = Inr r" .
  have "\<exists>r. ?repl1 m = Inr r" if "match_at prefix_regex_1 name i = Some m" for m i
    using group_present [OF binds_prefix_regex_1 that, of 0]
    by (auto simp: prefix_regex_1_def str_add_def)
  from re_sub_total [of prefix_regex_1 name ?repl1, OF this]
  have b: "\<exists>r. re_sub prefix_regex_1 ?repl1 name = Inr r" .
  from a b show ?thesis
    unfolding add_street_prefix_def
    by (cases "re_search prefix_regex name"; cases "re_search prefix_regex_1 name") simp_all
qed

lemma put_number_total: "\<exists>r. put_number_after_street self name = Inr r"
  unfolding put_number_after_street_def
  using re_sub_total [of number_regex name switch_number, OF switch_number_total]
  by (cases "re_search number_regex name") simp_all

lemma update_loop_total:
  assumes "\<forall>k \<in> set ks. key_matcher k \<noteq> None \<and>
             (\<exists>w. getitem (mapping self) k = Inr w \<and> CHR 0x5C \<notin> set w)"
  shows "\<exists>r. update_loop self ks cv = Inr r"
  using assms
proof (induction ks arbitrary: cv)
  case Nil
  show ?case by simp
next
  case (Cons key ks)
  from Cons.prems obtain km w where km: "key_matcher key = Some km"
    and w: "getitem (mapping self) key = Inr w" and bs: "CHR 0x5C \<notin> set w"
    by auto
  from km obtain rx where rx: "key_regex key = Inr rx"
    by (simp add: key_regex_def)
  from bs have tm: "template w = Inr (\<lambda>m. Inr w)"
    by (simp add: template_def)
  from re_sub_total [of rx "dirty_value self" "\<lambda>m. Inr w"]
  obtain cv' where cv': "re_sub rx (\<lambda>m. Inr w) (dirty_value self) = Inr cv'"
    by auto
  from Cons.prems have rest: "\<exists>r. update_loop self ks c = Inr r" for c
    by (intro Cons.IH) simp
  from rest [of cv] rest [of cv'] show ?case
    by (simp add: rx w tm cv' split: option.splits)
qed

lemma update_street_name_total:
  assumes "\<forall>(k, w) \<in> set M. key_matcher k \<noteq> None \<and> CHR 0x5C \<notin> set w"
  shows "\<exists>r. update_street_name \<lparr>dirty_value = v, mapping = M, expected_values = E\<rparr> = Inr r"
proof -
  have "key_matcher k \<noteq> None \<and> (\<exists>w. getitem M k = Inr w \<and> CHR 0x5C \<notin> set w)"
    if "k \<in> set (keys M)" for k
  proof -
    from getitem_in_keys [OF that] obtain w where w: "map_of M k = Some w" "getitem M k = Inr w"
      by auto
    from w(1) have "(k, w) \<in> set M" by (rule map_of_SomeD)
    with assms w(2) show ?thesis by auto
  qed
  then show ?thesis
    unfolding update_street_name_def by (intro update_loop_total) simp
qed

lemma clean_street_name_total:
  assumes "\<forall>(k, w) \<in> set M. key_matcher k \<noteq> None \<and> CHR 0x5C \<notin> set w"
  shows "\<exists>r. clean_street_name \<lparr>dirty_value = v, mapping = M, expected_values = E\<rparr> = Inr r"
proof -
  let ?self = "\<lparr>dirty_value = v, mapping = M, expected_values = E\<rparr>"
  from update_street_name_total [OF assms] obtain n0 where n0: "update_street_name ?self = Inr n0"
    by blast
  from remove_brackets_total obtain n1 where n1: "remove_brackets ?self (capwords n0) = Inr n1"
    by blast
  from street_letter_total obtain n2
    where n2: "street_letter_to_uppercase_and_removegap ?self n1 = Inr n2"
    by blast
  from switch_digit_total obtain n3 where n3: "switch_digit_position ?self n2 = Inr n3"
    by blast
  from remove_hypen_total obtain n4 where n4: "remove_hypen_space_and_switch ?self n3 = Inr n4"
    by blast
  from put_number_total obtain n5 where n5: "put_number_after_street ?self n4 = Inr n5"
    by blast
  from add_street_prefix_total obtain n6 where n6: "add_street_prefix ?self n5 = Inr n6"
    by blast
  obtain n7 where n7: "remove_non_street_values ?self n6 = Inr n7"
    unfolding remove_non_street_values_def by (cases "\<exists>value \<in> set E. contains n6 value") auto
  show ?thesis
    unfolding clean_street_name_def
    by (simp add: n0 n1 n2 n3 n4 n5 n6 n7 extract_street_def)
qed

lemma clean_value_total: "\<exists>r. clean_value self = Inr r"
  unfolding clean_value_def using getitem_in_keys [of "dirty_value self" "mapping self"]
  by auto

lemma clean_city_name_total: "\<exists>r. clean_city_name self = Inr r"
  unfolding clean_city_name_def Let_def using clean_value_total [of self]
  by (simp add: set_to_none_def)

lemma street_tables_well_formed:
  "\<forall>(k, w) \<in> set mapping_street_name. key_matcher k \<noteq> None \<and> CHR 0x5C \<notin> set w"
  by code_simp

lemma tag_value_total:
  assumes "getitem (attrib tg) ''v'' = Inr v"
  shows "\<exists>val.
     (if k = ''addr:street'' then
        bind_err (getitem (attrib tg) ''v'') (\<lambda>v. clean_street_name
          \<lparr>dirty_value = v, mapping = mapping_street_name,
           expected_values = expected_street_name\<rparr>)
      else if k = ''building'' then
        bind_err (getitem (attrib tg) ''v'') (\<lambda>v. clean_value
          \<lparr>dirty_value = v, mapping = mapping_building, expected_values = []\<rparr>)
      else if k = ''surface'' then
        bind_err (getitem (attrib tg) ''v'') (\<lambda>v. clean_value
          \<lparr>dirty_value = v, mapping = mapping_surface, expected_values = []\<rparr>)
      else if k = ''oneway'' then
        bind_err (getitem (attrib tg) ''v'') (\<lambda>v. set_to_none
          \<lparr>dirty_value = v, mapping = [], expected_values = []\<rparr>)
      else if k = ''addr:city'' then
        bind_err (getitem (attrib tg) ''v'') (\<lambda>v. clean_city_name
          \<lparr>dirty_value = v, mapping = mapping_city, expected_values = expected_cities\<rparr>)
      else getitem (attrib tg) ''v'') = Inr val"
  using clean_street_name_total [OF street_tables_well_formed, of v expected_street_name]
    clean_value_total [of "\<lparr>dirty_value = v, mapping = mapping_building, expected_values = []\<rparr>"]
    clean_value_total [of "\<lparr>dirty_value = v, mapping = mapping_surface, expected_values = []\<rparr>"]
    clean_city_name_total [of "\<lparr>dirty_value = v, mapping = mapping_city,
      expected_values = expected_cities\<rparr>"]
  by (simp add: assms set_to_none_def)

lemma split_key_total:
  "\<exists>ty ky. (if re_search LOWER_COLON k \<noteq> None
            then unpack2 (split_once (CHR '':'') k)
            else Inr (dt, k)) = Inr (ty, ky)"
proof (cases "re_search LOWER_COLON k \<noteq> None")
  case True
  from unpack2_split_once [OF True] True show ?thesis by auto
next
  case False
  then show ?thesis by simp
qed

lemma node_tag_total:
  assumes "''k'' \<in> set (keys (attrib tg))" and "''v'' \<in> set (keys (attrib tg))"
  shows "\<exists>r. node_tag e pc ac dt tg = Inr r"
proof -
  from getitem_in_keys [OF assms(1)] obtain k where k: "getitem (attrib tg) ''k'' = Inr k"
    by blast
  from getitem_in_keys [OF assms(2)] obtain v where v: "getitem (attrib tg) ''v'' = Inr v"
    by blast
  from tag_value_total [OF v, of k] obtain val where val: "(if k = ''addr:street'' then
        bind_err (getitem (attrib tg) ''v'') (\<lambda>v. clean_street_name
          \<lparr>dirty_value = v, mapping = mapping_street_name,
           expected_values = expected_street_name\<rparr>)
      else if k = ''building'' then
        bind_err (getitem (attrib tg) ''v'') (\<lambda>v. clean_value
          \<lparr>dirty_value = v, mapping = mapping_building, expected_values = []\<rparr>)
      else if k = ''surface'' then
        bind_err (getitem (attrib tg) ''v'') (\<lambda>v. clean_value
          \<lparr>dirty_value = v, mapping = mapping_surface, expected_values = []\<rparr>)
      else if k = ''oneway'' then
        bind_err (getitem (attrib tg) ''v'') (\<lambda>v. set_to_none
          \<lparr>dirty_value = v, mapping = [], expected_values = []\<rparr>)
      else if k = ''addr:city'' then
        bind_err (getitem (attrib tg) ''v'') (\<lambda>v. clean_city_name
          \<lparr>dirty_value = v, mapping = mapping_city, expected_values = expected_cities\<rparr>)
      else getitem (attrib tg) ''v'') = Inr val"
    by (elim exE)
  from split_key_total [of k dt] obtain ty ky
    where sp: "(if re_search LOWER_COLON k \<noteq> None
            then unpack2 (split_once (CHR '':'') k)
            else Inr (dt, k)) = Inr (ty, ky)"
    by (elim exE)
  show ?thesis
    unfolding node_tag_def by (simp only: k bind_err_Inr val sp split: if_split) simp
qed

lemma way_tag_total:
  assumes "''k'' \<in> set (keys (attrib tg))" and "''v'' \<in> set (keys (attrib tg))"
  shows "\<exists>r. way_tag e pc ac dt tg = Inr r"
proof -
  have "way_tag e pc ac dt tg = node_tag e PROBLEMCHARS ac dt tg"
    by (simp add: node_tag_def way_tag_def)
  with node_tag_total [OF assms] show ?thesis by simp
qed

lemma collect_total:
  assumes "\<forall>x \<in> set xs. \<exists>r. body x = Inr r"
  shows "\<exists>rows. collect body xs = Inr rows"
  using assms
proof (induction xs)
  case Nil
  show ?case by simp
next
  case (Cons x xs)
  then obtain r rows where "body x = Inr r" "collect body xs = Inr rows"
    by auto
  then show ?case by (cases r) simp_all
qed

lemma way_nodes_loop_total:
  assumes "\<forall>nd \<in> set nds. ''ref'' \<in> set (keys (attrib nd))"
  shows "\<exists>rows. way_nodes_loop e i nds = Inr rows"
  using assms
proof (induction nds arbitrary: i)
  case Nil
  show ?case by simp
next
  case (Cons nd nds)
  from Cons.prems getitem_in_keys [of "''ref''" "attrib nd"]
  obtain r where "getitem (attrib nd) ''ref'' = Inr r" by auto
  moreover from Cons obtain rows where "way_nodes_loop e (i + 1) nds = Inr rows"
    by fastforce
  ultimately show ?case by simp
qed

lemma shape_element_total:
  assumes "\<forall>tg \<in> set (iter ''tag'' e).
             ''k'' \<in> set (keys (attrib tg)) \<and> ''v'' \<in> set (keys (attrib tg))"
    and "\<forall>nd \<in> set (iter ''nd'' e). ''ref'' \<in> set (keys (attrib nd))"
  shows "\<exists>r. shape_element e nfs wfs pc ac dt = Inr r"
proof -
  from assms(1) have "\<forall>tg \<in> set (iter ''tag'' e). \<exists>r. node_tag e pc ac dt tg = Inr r"
    by (blast intro: node_tag_total)
  from collect_total [OF this] obtain nrows
    where nrows: "collect (node_tag e pc ac dt) (iter ''tag'' e) = Inr nrows" ..
  from assms(1) have "\<forall>tg \<in> set (iter ''tag'' e). \<exists>r. way_tag e pc ac dt tg = Inr r"
    by (blast intro: way_tag_total)
  from collect_total [OF this] obtain wrows
    where wrows: "collect (way_tag e pc ac dt) (iter ''tag'' e) = Inr wrows" ..
  from way_nodes_loop_total [OF assms(2)] obtain nodes
    where nodes: "way_nodes_loop e 0 (iter ''nd'' e) = Inr nodes" ..
  show ?thesis
    unfolding shape_element_def by (simp add: nrows wrows nodes)
qed

section \<open>The examples of the docstrings\<close>

text \<open>The model gives what the docstrings of \<^verbatim>\<open>clean_osm.py\<close> announce for their own
  examples, and skips a tag whose key ends in \<^verbatim>\<open>:ar\<close>.\<close>

lemma docstring_update_street_name:
  "update_street_name \<lparr>dirty_value = ''Sibaytah St'', mapping = mapping_street_name,
      expected_values = expected_street_name\<rparr> = Inr ''Sibaytah Street''"
  by code_simp

lemma docstring_street_letter:
  "street_letter_to_uppercase_and_removegap self ''Street 6a'' = Inr ''Street 6A''"
  "street_letter_to_uppercase_and_removegap self ''11 B'' = Inr ''11B''"
  "street_letter_to_uppercase_and_removegap self ''2-A'' = Inr ''2A''"
  unfolding street_letter_to_uppercase_and_removegap_def by code_simp+

lemma docstring_switch_digit_position: "switch_digit_position self ''E11'' = Inr ''11E''"
  unfolding switch_digit_position_def by code_simp

lemma docstring_remove_hypen: "remove_hypen_space_and_switch self ''M-26'' = Inr ''26M''"
  unfolding remove_hypen_space_and_switch_def by code_simp

lemma docstring_remove_brackets:
  "remove_brackets self (''Sa'' @ [CHR 0x27] @ ''ada Street (19th)'')
     = Inr (''Sa'' @ [CHR 0x27] @ ''ada Street 19'')"
  unfolding remove_brackets_def by code_simp

lemma docstring_add_street_prefix: "add_street_prefix self ''11B'' = Inr ''Street 11B''"
  unfolding add_street_prefix_def by code_simp

lemma docstring_put_number_after_street:
  "put_number_after_street self ''17 Street'' = Inr ''Street 17''"
  "put_number_after_street self ''1 Street 17, Al Safa'' = Inr ''1 Street 17, Al Safa''"
  unfolding put_number_after_street_def by code_simp+

lemma docstring_remove_non_street_values:
  "remove_non_street_values \<lparr>dirty_value = [], mapping = [],
      expected_values = expected_street_name\<rparr> ''Ibn Sina Medical Centre'' = Inr ''None''"
  "remove_non_street_values \<lparr>dirty_value = [], mapping = [],
      expected_values = expected_street_name\<rparr> ''P.O. Box 34429'' = Inr ''None''"
  by code_simp+

lemma docstring_extract_street:
  "extract_street \<lparr>dirty_value = [], mapping = [], expected_values = expected_street_name\<rparr>
     ''Jumeirah Village Triangle,  District 2, Street 5'' = Inr '' Street 5''"
  by code_simp

lemma docstring_is_expected_city:
  "is_expected_city \<lparr>dirty_value = ''Jumeriah Lake Towers, Dubai'', mapping = mapping_city,
      expected_values = expected_cities\<rparr> = (True, ''Dubai'')"
  by code_simp

lemma docstring_clean_city_name:
  "clean_city_name \<lparr>dirty_value = ''fujairah'', mapping = mapping_city,
      expected_values = expected_cities\<rparr> = Inr ''Fujairah''"
  by code_simp

lemma arabic_key_skipped:
  "node_tag (Element ''node'' [(''id'', ''7'')] []) PROBLEMCHARS ARABICKEY ''regular''
     (Element ''tag'' [(''k'', ''name:ar''), (''v'', v)] []) = Inr None"
  unfolding node_tag_def by code_simp

section \<open>Generic substitution\<close>

text \<open>
  Claim C8. For every value \<open>v\<close> and mapping \<open>M\<close>, \<^verbatim>\<open>clean_value\<close> returns \<open>M[v]\<close> when
  \<open>v\<close> is a key of \<open>M\<close> and \<open>v\<close> itself otherwise, and never raises; with the empty
  mapping it is the identity.
\<close>

theorem clean_value_lookup:
  "clean_value \<lparr>dirty_value = v, mapping = M, expected_values = E\<rparr> =
     Inr (case map_of M v of Some w \<Rightarrow> w | None \<Rightarrow> v)
   \<and> clean_value \<lparr>dirty_value = v, mapping = [], expected_values = E\<rparr> = Inr v"
proof (cases "map_of M v")
  case None
  then have "v \<notin> set (keys M)"
    by (simp add: keys_def map_of_eq_None_iff)
  with None show ?thesis
    by (simp add: clean_value_def keys_def)
next
  case (Some w)
  then have "v \<in> set (keys M)"
    by (auto simp: keys_def dest: map_of_SomeD intro: rev_image_eqI)
  with Some show ?thesis
    by (simp add: clean_value_def getitem_def keys_def)
qed

section \<open>Reshaping: tag rows and member rows\<close>




lemma way_nodes_loop_rows:
  "way_nodes_loop e i nds = Inr rows \<Longrightarrow>
     map position rows = [i..<i + length nds] \<and>
     map (\<lambda>r. Inr (node_id r)) rows = map (\<lambda>nd. getitem (attrib nd) ''ref'') nds \<and>
     (\<forall>r \<in> set rows. nd_id r = get e ''id'')"
proof (induction nds arbitrary: i rows)
  case Nil
  then show ?case by simp
next
  case (Cons nd nds)
  from Cons.prems obtain r rest where r: "getitem (attrib nd) ''ref'' = Inr r"
    and rest: "way_nodes_loop e (Suc i) nds = Inr rest"
    and rows: "rows = \<lparr>nd_id = get e ''id'', node_id = r, position = i\<rparr> # rest"
    by (auto split: sum.splits)
  from Cons.IH [OF rest] r rows show ?case
    by (simp add: upt_rec)
qed

text \<open>
  Claim C6. When \<^verbatim>\<open>shape_element\<close> returns the dictionary of a way, the member rows
  carry the positions \<open>0, 1, ..., n - 1\<close>, where \<open>n\<close> is the number of \<^verbatim>\<open>nd\<close> elements, the
  row at position \<open>i\<close> carries the \<^verbatim>\<open>ref\<close> of the \<open>i\<close>-th \<^verbatim>\<open>nd\<close> in document order, and every
  row carries the way's id. The counter is local to the call, so the rows depend on the
  record alone, not on the records shaped before it or on their order.
\<close>

theorem way_nodes_positions:
  assumes "shape_element e nfs wfs pc ac dt = Inr (Way w nodes tags)"
  shows "map position nodes = [0..<length (iter ''nd'' e)] \<and>
         map (\<lambda>r. Inr (node_id r)) nodes = map (\<lambda>nd. getitem (attrib nd) ''ref'') (iter ''nd'' e) \<and>
         (\<forall>r \<in> set nodes. nd_id r = get e ''id'')"
proof -
  from assms have "way_nodes_loop e 0 (iter ''nd'' e) = Inr nodes"
    by (auto simp: shape_element_def bind_err_eq_Inr split: if_splits)
  from way_nodes_loop_rows [OF this] show ?thesis by simp
qed

theorem way_nodes_positions_witness:
  "shape_element
     (Element ''way'' [(''id'', ''9'')]
        [Element ''nd'' [(''ref'', ''30'')] [], Element ''nd'' [(''ref'', ''10'')] [],
         Element ''nd'' [(''ref'', ''20'')] [], Element ''tag'' [(''k'', ''highway''), (''v'', ''service'')] []])
     NODE_FIELDS WAY_FIELDS PROBLEMCHARS ARABICKEY ''regular''
   = Inr (Way [(''id'', Some ''9''), (''user'', None), (''uid'', None), (''version'', None),
               (''changeset'', None), (''timestamp'', None)]
            [\<lparr>nd_id = Some ''9'', node_id = ''30'', position = 0\<rparr>,
             \<lparr>nd_id = Some ''9'', node_id = ''10'', position = 1\<rparr>,
             \<lparr>nd_id = Some ''9'', node_id = ''20'', position = 2\<rparr>]
            [\<lparr>row_id = Some ''9'', row_key = ''highway'', row_value = ''service'', row_type = ''regular''\<rparr>])
   \<and> map position
         [\<lparr>nd_id = Some ''9'', node_id = ''30'', position = 0\<rparr>,
          \<lparr>nd_id = Some ''9'', node_id = ''10'', position = 1\<rparr>,
          \<lparr>nd_id = Some ''9'', node_id = ''20'', position = 2\<rparr>] = [0, 1, 2]"
proof -
  have h: "shape_element
     (Element ''way'' [(''id'', ''9'')]
        [Element ''nd'' [(''ref'', ''30'')] [], Element ''nd'' [(''ref'', ''10'')] [],
         Element ''nd'' [(''ref'', ''20'')] [], Element ''tag'' [(''k'', ''highway''), (''v'', ''service'')] []])
     NODE_FIELDS WAY_FIELDS PROBLEMCHARS ARABICKEY ''regular''
   = Inr (Way [(''id'', Some ''9''), (''user'', None), (''uid'', None), (''version'', None),
               (''changeset'', None), (''timestamp'', None)]
            [\<lparr>nd_id = Some ''9'', node_id = ''30'', position = 0\<rparr>,
             \<lparr>nd_id = Some ''9'', node_id = ''10'', position = 1\<rparr>,
             \<lparr>nd_id = Some ''9'', node_id = ''20'', position = 2\<rparr>]
            [\<lparr>row_id = Some ''9'', row_key = ''highway'', row_value = ''service'', row_type = ''regular''\<rparr>])"
    by code_simp
  from way_nodes_positions [OF h] h show ?thesis
    by simp
qed

text \<open>
  Claim C10. The two branches build tag rows differently when \<^verbatim>\<open>shape_element\<close> is called
  with a \<^verbatim>\<open>problem_chars\<close> other than the module's \<^verbatim>\<open>PROBLEMCHARS\<close>: the node branch tests
  the argument, the way branch tests the module constant. With
  \<^verbatim>\<open>problem_chars = re.compile('x')\<close> and the sub-tag \<^verbatim>\<open>k="a b" v="1"\<close> of a record with id 9,
  the node branch emits a row and the way branch skips the tag.
\<close>

theorem way_tag_ignores_problem_chars:
  "shape_element
     (Element ''node'' [(''id'', ''9'')] [Element ''tag'' [(''k'', ''a b''), (''v'', ''1'')] []])
     NODE_FIELDS WAY_FIELDS \<lparr>p_matcher = lit (CHR ''x''), p_groups = 0\<rparr> ARABICKEY ''regular''
   = Inr (Node [(''id'', Some ''9''), (''lat'', None), (''lon'', None), (''user'', None),
                (''uid'', None), (''version'', None), (''changeset'', None),
                (''timestamp'', None)]
            [\<lparr>row_id = Some ''9'', row_key = ''a b'', row_value = ''1'',
              row_type = ''regular''\<rparr>])
   \<and> shape_element
     (Element ''way'' [(''id'', ''9'')] [Element ''tag'' [(''k'', ''a b''), (''v'', ''1'')] []])
     NODE_FIELDS WAY_FIELDS \<lparr>p_matcher = lit (CHR ''x''), p_groups = 0\<rparr> ARABICKEY ''regular''
   = Inr (Way [(''id'', Some ''9''), (''user'', None), (''uid'', None), (''version'', None),
               (''changeset'', None), (''timestamp'', None)] [] [])"
  by code_simp

text \<open>With the default argument the two branches are the same function.\<close>

lemma tag_branches_agree_on_default:
  "way_tag e PROBLEMCHARS ac dt tg = node_tag e PROBLEMCHARS ac dt tg"
  by (simp add: node_tag_def way_tag_def)

section \<open>Street names\<close>

text \<open>
  Claim C1. With the repository's street mapping and the input \<^verbatim>\<open>"St Rd"\<close>, the keys
  \<^verbatim>\<open>St\<close> and \<^verbatim>\<open>Rd\<close> both occur as whole words, yet \<^verbatim>\<open>update_street_name\<close> returns
  \<^verbatim>\<open>"St Road"\<close>: every substitution is made in \<^verbatim>\<open>self.dirty_value\<close>, so only the one for
  the last matching key survives.
\<close>

theorem update_street_name_keeps_one_key:
  "key_occurs ''St'' ''St Rd'' \<and> key_occurs ''Rd'' ''St Rd'' \<and>
   update_street_name \<lparr>dirty_value = ''St Rd'', mapping = mapping_street_name,
      expected_values = expected_street_name\<rparr> = Inr ''St Road''"
  by code_simp

text \<open>The result of the loop is the input or the input with one key substituted, so
  no iteration order of the dictionary gives \<^verbatim>\<open>"Street Road"\<close>.\<close>

lemma update_loop_result:
  "update_loop self ks cv = Inr r \<Longrightarrow>
     r = cv \<or> (\<exists>key \<in> set ks. \<exists>rx v repl. key_regex key = Inr rx \<and>
        getitem (mapping self) key = Inr v \<and> template v = Inr repl \<and>
        re_sub rx repl (dirty_value self) = Inr r)"
proof (induction ks arbitrary: cv)
  case Nil
  then show ?case by simp
next
  case (Cons key ks)
  let ?d = "dirty_value self"
  have skip: "update_loop self ks cv = Inr r \<Longrightarrow> ?case"
    using Cons.IH [of cv] by auto
  show ?case
  proof (cases "contains ?d key")
    case False
    with Cons.prems skip show ?thesis by simp
  next
    case True
    show ?thesis
    proof (cases "key_regex key")
      case (Inl e)
      with True Cons.prems show ?thesis by simp
    next
      case (Inr rx)
      show ?thesis
      proof (cases "re_search rx ?d")
        case None
        with True Inr Cons.prems skip show ?thesis by simp
      next
        case (Some found)
        from True Inr Some Cons.prems obtain v repl cv'
          where v: "getitem (mapping self) key = Inr v" and repl: "template v = Inr repl"
            and cv': "re_sub rx repl ?d = Inr cv'" and rest: "update_loop self ks cv' = Inr r"
          by (auto split: sum.splits)
        from Cons.IH [OF rest] show ?thesis
        proof
          assume "r = cv'"
          with Inr v repl cv' show ?thesis by auto
        next
          assume "\<exists>key \<in> set ks. \<exists>rx v repl. key_regex key = Inr rx \<and>
            getitem (mapping self) key = Inr v \<and> template v = Inr repl \<and>
            re_sub rx repl ?d = Inr r"
          then show ?thesis by auto
        qed
      qed
    qed
  qed
qed

lemma single_subs_St_Rd:
  "\<forall>(key, v) \<in> set mapping_street_name.
     (case key_regex key of Inl e \<Rightarrow> True
      | Inr rx \<Rightarrow> re_sub rx (\<lambda>m. Inr v) ''St Rd'' \<noteq> Inr ''Street Road'')"
  by code_simp

lemma update_street_name_any_order:
  assumes "set M = set mapping_street_name"
  shows "update_street_name \<lparr>dirty_value = ''St Rd'', mapping = M, expected_values = E\<rparr>
           \<noteq> Inr ''Street Road''"
proof
  let ?self = "\<lparr>dirty_value = ''St Rd'', mapping = M, expected_values = E\<rparr>"
  assume "update_street_name ?self = Inr ''Street Road''"
  then have "update_loop ?self (keys M) ''St Rd'' = Inr ''Street Road''"
    by (simp add: update_street_name_def)
  from update_loop_result [OF this] obtain key rx v repl
    where rx: "key_regex key = Inr rx" and v: "getitem M key = Inr v"
      and repl: "template v = Inr repl" and sub: "re_sub rx repl ''St Rd'' = Inr ''Street Road''"
    by auto
  from v have "(key, v) \<in> set M"
    by (auto simp: getitem_def split: option.splits dest: map_of_SomeD)
  with assms have "(key, v) \<in> set mapping_street_name" by simp
  with single_subs_St_Rd rx have "re_sub rx (\<lambda>m. Inr v) ''St Rd'' \<noteq> Inr ''Street Road''"
    by fastforce
  moreover from repl have "repl = (\<lambda>m. Inr v)"
    by (auto simp: template_def split: if_splits)
  ultimately show False using sub by simp
qed

text \<open>
  Claim C2, as stated: the value \<^verbatim>\<open>"E11"\<close> is nulled. It is not: the swap gives
  \<^verbatim>\<open>"11E"\<close>, and \<^verbatim>\<open>add_street_prefix\<close> then puts \<^verbatim>\<open>Street\<close> before it.
\<close>

theorem clean_street_name_E11_not_nulled:
  "clean_street_name \<lparr>dirty_value = ''E11'', mapping = mapping_street_name,
      expected_values = expected_street_name\<rparr> \<noteq> Inr ''None''"
  by code_simp

lemma update_loop_no_key:
  "\<forall>k \<in> set ks. \<not> contains (dirty_value self) k \<Longrightarrow> update_loop self ks cv = Inr cv"
  by (induction ks) auto

lemma capwords_E11: "capwords ''E11'' = ''E11''"
  by code_simp

lemma remove_brackets_E11: "remove_brackets self ''E11'' = Inr ''E11''"
  unfolding remove_brackets_def by code_simp

lemma letter_E11: "street_letter_to_uppercase_and_removegap self ''E11'' = Inr ''E11''"
  unfolding street_letter_to_uppercase_and_removegap_def by code_simp

lemma switch_E11: "switch_digit_position self ''E11'' = Inr ''11E''"
  unfolding switch_digit_position_def by code_simp

lemma hyphen_11E: "remove_hypen_space_and_switch self ''11E'' = Inr ''11E''"
  unfolding remove_hypen_space_and_switch_def by code_simp

lemma number_11E: "put_number_after_street self ''11E'' = Inr ''11E''"
  unfolding put_number_after_street_def by code_simp

lemma prefix_11E: "add_street_prefix self ''11E'' = Inr ''Street 11E''"
  unfolding add_street_prefix_def by code_simp

lemma contains_Street: "contains ''Street 11E'' ''Street''"
  by code_simp

lemma extract_Street_11E: "extract_street self ''Street 11E'' = Inr ''Street 11E''"
  by (simp add: extract_street_def)

text \<open>
  Claim C2, amended. For a canonical list containing \<^verbatim>\<open>"Street"\<close> and a mapping none of
  whose keys occurs in \<^verbatim>\<open>"E11"\<close>, \<^verbatim>\<open>clean_street_name\<close> returns \<^verbatim>\<open>"Street 11E"\<close>: the
  letter/number swap yields \<^verbatim>\<open>"11E"\<close>, the prefix step yields \<^verbatim>\<open>"Street 11E"\<close>, which
  holds a canonical street word and is kept.
\<close>

theorem clean_street_name_E11:
  assumes "''Street'' \<in> set E" and "\<forall>k \<in> set (keys M). \<not> contains ''E11'' k"
  shows "switch_digit_position \<lparr>dirty_value = ''E11'', mapping = M, expected_values = E\<rparr>
           ''E11'' = Inr ''11E'' \<and>
         add_street_prefix \<lparr>dirty_value = ''E11'', mapping = M, expected_values = E\<rparr>
           ''11E'' = Inr ''Street 11E'' \<and>
         clean_street_name \<lparr>dirty_value = ''E11'', mapping = M, expected_values = E\<rparr>
           = Inr ''Street 11E''"
proof -
  let ?self = "\<lparr>dirty_value = ''E11'', mapping = M, expected_values = E\<rparr>"
  have "update_street_name ?self = Inr ''E11''"
    using assms(2) by (simp add: update_street_name_def update_loop_no_key)
  moreover have "remove_non_street_values ?self ''Street 11E'' = Inr ''Street 11E''"
  proof -
    have "\<exists>value \<in> set E. contains ''Street 11E'' value"
      using assms(1) contains_Street by blast
    then show ?thesis
      unfolding remove_non_street_values_def by simp
  qed
  ultimately show ?thesis
    by (simp add: clean_street_name_def capwords_E11 remove_brackets_E11 letter_E11
        switch_E11 hyphen_11E number_11E prefix_11E extract_Street_11E)
qed

theorem clean_street_name_E11_witness:
  "''Street'' \<in> set expected_street_name \<and>
   clean_street_name \<lparr>dirty_value = ''E11'', mapping = mapping_street_name,
      expected_values = expected_street_name\<rparr> = Inr ''Street 11E''"
proof -
  have a: "''Street'' \<in> set expected_street_name"
    by (simp add: expected_street_name_def)
  have b: "\<forall>k \<in> set (keys mapping_street_name). \<not> contains ''E11'' k"
    by (simp add: mapping_street_name_def keys_def)
  from clean_street_name_E11 [OF a b] a show ?thesis by simp
qed


lemma capwords_None: "capwords ''None'' = ''None''"
  by code_simp

lemma steps_None:
  "remove_brackets self ''None'' = Inr ''None''"
  "street_letter_to_uppercase_and_removegap self ''None'' = Inr ''None''"
  "switch_digit_position self ''None'' = Inr ''None''"
  "remove_hypen_space_and_switch self ''None'' = Inr ''None''"
  "put_number_after_street self ''None'' = Inr ''None''"
  "add_street_prefix self ''None'' = Inr ''None''"
  unfolding remove_brackets_def street_letter_to_uppercase_and_removegap_def
    switch_digit_position_def remove_hypen_space_and_switch_def put_number_after_street_def
    add_street_prefix_def
  by code_simp+

text \<open>The null-marker is a fixed point when no key of the mapping occurs in it.\<close>

lemma clean_street_name_null_fixed:
  assumes "\<forall>k \<in> set (keys M). \<not> contains ''None'' k"
  shows "clean_street_name \<lparr>dirty_value = ''None'', mapping = M, expected_values = E\<rparr>
           = Inr ''None''"
proof -
  let ?self = "\<lparr>dirty_value = ''None'', mapping = M, expected_values = E\<rparr>"
  have "update_street_name ?self = Inr ''None''"
    using assms by (simp add: update_street_name_def update_loop_no_key)
  moreover have "remove_non_street_values ?self ''None'' = Inr ''None''"
    unfolding remove_non_street_values_def by simp
  ultimately show ?thesis
    by (simp add: clean_street_name_def capwords_None steps_None)
qed








subsection \<open>What an output of \<^verbatim>\<open>clean_street_name\<close> holds\<close>




subsection \<open>Character classes and \<^verbatim>\<open>capwords\<close>\<close>









subsection \<open>Where the patterns of the rewrite steps can match\<close>

















subsection \<open>Values that end in a street number\<close>




























text \<open>Outside these forms a second application can change the value in other ways than
  by trimming the piece of \<^verbatim>\<open>extract_street\<close>: a mapping key can remain in the output
  (each substitution of \<^verbatim>\<open>update_street_name\<close> is made in the dirty value), the letters
  that follow a number can be rewritten by a step that ran before they took their form,
  and an output with a comma is split again.\<close>

lemma clean_street_name_two_keys_unstable:
  "clean_street_name \<lparr>dirty_value = ''St Rd'', mapping = mapping_street_name,
      expected_values = expected_street_name\<rparr> = Inr ''St Road'' \<and>
   clean_street_name \<lparr>dirty_value = ''St Road'', mapping = mapping_street_name,
      expected_values = expected_street_name\<rparr> = Inr ''Street Road''"
  by code_simp

lemma clean_street_name_ordinal_unstable:
  "clean_street_name \<lparr>dirty_value = ''4 th Street'', mapping = mapping_street_name,
      expected_values = expected_street_name\<rparr> = Inr ''4TH Street'' \<and>
   clean_street_name \<lparr>dirty_value = ''4TH Street'', mapping = mapping_street_name,
      expected_values = expected_street_name\<rparr> = Inr ''Street 4''"
  by code_simp

lemma clean_street_name_comma_unstable:
  "clean_street_name \<lparr>dirty_value = ''Al Safa,Al Wasl Road-Dubai'',
      mapping = mapping_street_name, expected_values = expected_street_name\<rparr>
     = Inr ''Al Safa,al Wasl Road'' \<and>
   clean_street_name \<lparr>dirty_value = ''Al Safa,al Wasl Road'',
      mapping = mapping_street_name, expected_values = expected_street_name\<rparr>
     = Inr ''al Wasl Road''"
  by code_simp

section \<open>City names\<close>

text \<open>
  Claim C3, as stated: a mapping key whose title-cased form is not equal to a canonical
  name is mapped. The key \<^verbatim>\<open>'Mussafah M 45- Abu Dhabi'\<close> of the repository's own table is
  not: the canonical check is a substring test, and \<^verbatim>\<open>'Abu Dhabi'\<close> occurs in it.
\<close>

theorem clean_city_name_canonical_substring:
  "capwords ''Mussafah M 45- Abu Dhabi'' \<notin> set expected_cities \<and>
   ''Mussafah M 45- Abu Dhabi'' \<in> set (keys mapping_city) \<and>
   getitem mapping_city ''Mussafah M 45- Abu Dhabi'' = Inr ''Mussafah'' \<and>
   clean_city_name \<lparr>dirty_value = ''Mussafah M 45- Abu Dhabi'', mapping = mapping_city,
      expected_values = expected_cities\<rparr> = Inr ''Abu Dhabi''"
  by code_simp

lemma expected_city_loop_find:
  "expected_city_loop t E =
     (case find (contains t) E of Some c \<Rightarrow> (True, c) | None \<Rightarrow> (False, []))"
  by (induction E) auto

text \<open>
  Claim C3, amended. \<^verbatim>\<open>clean_city_name\<close> returns the first canonical name that occurs
  in the title-cased input as a substring, when there is one; when there is none and the
  input is a key of the mapping, it returns the mapped value.
\<close>

theorem clean_city_name_precedence:
  "(case find (contains (capwords v)) E of
      Some c \<Rightarrow> clean_city_name \<lparr>dirty_value = v, mapping = M, expected_values = E\<rparr> = Inr c
    | None \<Rightarrow>
        (v \<in> set (keys M) \<longrightarrow>
           (\<exists>w. map_of M v = Some w \<and>
              clean_city_name \<lparr>dirty_value = v, mapping = M, expected_values = E\<rparr> = Inr w)))"
proof (cases "find (contains (capwords v)) E")
  case None
  then show ?thesis
    using getitem_in_keys [of v M]
    by (auto simp: clean_city_name_def is_expected_city_def expected_city_loop_find
        clean_value_def)
next
  case (Some c)
  then show ?thesis
    by (simp add: clean_city_name_def is_expected_city_def expected_city_loop_find)
qed

theorem clean_city_name_precedence_witness:
  "find (contains (capwords ''Duba'')) expected_cities = None \<and>
   ''Duba'' \<in> set (keys mapping_city) \<and>
   (\<exists>w. map_of mapping_city ''Duba'' = Some w \<and>
      clean_city_name \<lparr>dirty_value = ''Duba'', mapping = mapping_city,
         expected_values = expected_cities\<rparr> = Inr w) \<and>
   clean_city_name \<lparr>dirty_value = ''Duba'', mapping = mapping_city,
         expected_values = expected_cities\<rparr> = Inr ''Dubai''"
proof -
  have a: "find (contains (capwords ''Duba'')) expected_cities = None"
    by code_simp
  have b: "''Duba'' \<in> set (keys mapping_city)"
    by code_simp
  have c: "clean_city_name \<lparr>dirty_value = ''Duba'', mapping = mapping_city,
         expected_values = expected_cities\<rparr> = Inr ''Dubai''"
    by code_simp
  from clean_city_name_precedence [where v = "''Duba''" and E = expected_cities and M = mapping_city] a b c
  show ?thesis by simp
qed

text \<open>
  Claim C5. The one-letter input \<^verbatim>\<open>"A"\<close> starts with a letter, is not matched by the
  canonical check, is no key of the mapping and no junk literal; \<^verbatim>\<open>clean_city_name\<close>
  returns the null-marker for it, not the title-cased input \<^verbatim>\<open>"A"\<close>: the pattern
  \<^verbatim>\<open>^[a-z|A-Z]+.\<close> asks for a further character after the letters.
\<close>

theorem clean_city_name_single_letter:
  "is_upper (hd ''A'') \<and>
   \<not> fst (is_expected_city \<lparr>dirty_value = ''A'', mapping = mapping_city,
      expected_values = expected_cities\<rparr>) \<and>
   ''A'' \<notin> set (keys mapping_city) \<and> ''A'' \<notin> set wrong_entry \<and> capwords ''A'' = ''A'' \<and>
   clean_city_name \<lparr>dirty_value = ''A'', mapping = mapping_city,
      expected_values = expected_cities\<rparr> = Inr ''None''"
  by code_simp

text \<open>What the last two branches do in general: an input that is neither matched by the
  canonical check nor a key is nulled when it is a junk literal, title-cased when its
  first character is a letter (or a bar) and a second character other than a newline
  follows, and nulled otherwise.\<close>

lemma junk_matches: "\<forall>v \<in> set wrong_entry. re_search regex_english v \<noteq> None"
  by code_simp

lemma clean_city_name_other:
  assumes "find (contains (capwords v)) E = None" and "v \<notin> set (keys M)"
  shows "clean_city_name \<lparr>dirty_value = v, mapping = M, expected_values = E\<rparr> =
     (if v \<in> set wrong_entry then Inr ''None''
      else if \<exists>a b r. v = a # b # r \<and> letter_or_bar a \<and> b \<noteq> CHR 0x0A then Inr (capwords v)
      else Inr ''None'')"
proof -
  have "v \<in> set wrong_entry \<Longrightarrow> re_search regex_english v \<noteq> None"
    using junk_matches by blast
  with assms show ?thesis
    unfolding clean_city_name_def is_expected_city_def expected_city_loop_find Let_def
      regex_english_matches [symmetric]
    by (simp add: set_to_none_def)
qed

section \<open>No cleaning operation raises\<close>

text \<open>
  Claim C9. For a mapping whose keys are in the fragment of patterns read here and whose
  values hold no backslash (the repository's tables are such), and for every value string
  \<open>v\<close>, none of \<^verbatim>\<open>clean_value\<close>, \<^verbatim>\<open>set_to_none\<close>, \<^verbatim>\<open>clean_street_name\<close> and
  \<^verbatim>\<open>clean_city_name\<close> raises; and \<^verbatim>\<open>shape_element\<close> raises for no record whose \<^verbatim>\<open>tag\<close>
  children carry \<^verbatim>\<open>k\<close> and \<^verbatim>\<open>v\<close> and whose \<^verbatim>\<open>nd\<close> children carry \<^verbatim>\<open>ref\<close>, whatever the
  values, the patterns and the default label are.
\<close>

theorem cleaning_never_raises:
  assumes "\<forall>(k, w) \<in> set M. key_matcher k \<noteq> None \<and> CHR 0x5C \<notin> set w"
    and "\<forall>tg \<in> set (iter ''tag'' e).
           ''k'' \<in> set (keys (attrib tg)) \<and> ''v'' \<in> set (keys (attrib tg))"
    and "\<forall>nd \<in> set (iter ''nd'' e). ''ref'' \<in> set (keys (attrib nd))"
  shows "(\<exists>r. clean_value \<lparr>dirty_value = v, mapping = M, expected_values = E\<rparr> = Inr r) \<and>
         (\<exists>r. set_to_none \<lparr>dirty_value = v, mapping = M, expected_values = E\<rparr> = Inr r) \<and>
         (\<exists>r. clean_street_name \<lparr>dirty_value = v, mapping = M, expected_values = E\<rparr> = Inr r) \<and>
         (\<exists>r. clean_city_name \<lparr>dirty_value = v, mapping = M, expected_values = E\<rparr> = Inr r) \<and>
         (\<exists>r. shape_element e nfs wfs pc ac dt = Inr r)"
  using clean_value_total clean_street_name_total [OF assms(1)] clean_city_name_total
    shape_element_total [OF assms(2,3)]
  by (simp add: set_to_none_def)

theorem cleaning_never_raises_witness:
  "(\<exists>r. clean_value \<lparr>dirty_value = ''M-26'', mapping = mapping_street_name,
          expected_values = expected_street_name\<rparr> = Inr r) \<and>
   (\<exists>r. set_to_none \<lparr>dirty_value = ''M-26'', mapping = mapping_street_name,
          expected_values = expected_street_name\<rparr> = Inr r) \<and>
   (\<exists>r. clean_street_name \<lparr>dirty_value = ''M-26'', mapping = mapping_street_name,
          expected_values = expected_street_name\<rparr> = Inr r) \<and>
   (\<exists>r. clean_city_name \<lparr>dirty_value = ''M-26'', mapping = mapping_street_name,
          expected_values = expected_street_name\<rparr> = Inr r) \<and>
   (\<exists>r. shape_element
          (Element ''way'' [(''id'', ''9'')]
             [Element ''nd'' [(''ref'', ''30'')] [], Element ''nd'' [(''ref'', ''10'')] [],
              Element ''tag'' [(''k'', ''addr:street''), (''v'', ''17 Street'')] [],
              Element ''tag'' [(''k'', ''name:ar''), (''v'', ''x'')] []])
          NODE_FIELDS WAY_FIELDS PROBLEMCHARS ARABICKEY ''regular'' = Inr r)"
proof -
  have a: "\<forall>(k, w) \<in> set mapping_street_name. key_matcher k \<noteq> None \<and> CHR 0x5C \<notin> set w"
    by code_simp
  have b: "\<forall>tg \<in> set (iter ''tag''
          (Element ''way'' [(''id'', ''9'')]
             [Element ''nd'' [(''ref'', ''30'')] [], Element ''nd'' [(''ref'', ''10'')] [],
              Element ''tag'' [(''k'', ''addr:street''), (''v'', ''17 Street'')] [],
              Element ''tag'' [(''k'', ''name:ar''), (''v'', ''x'')] []])).
        ''k'' \<in> set (keys (attrib tg)) \<and> ''v'' \<in> set (keys (attrib tg))"
    by code_simp
  have c: "\<forall>nd \<in> set (iter ''nd''
          (Element ''way'' [(''id'', ''9'')]
             [Element ''nd'' [(''ref'', ''30'')] [], Element ''nd'' [(''ref'', ''10'')] [],
              Element ''tag'' [(''k'', ''addr:street''), (''v'', ''17 Street'')] [],
              Element ''tag'' [(''k'', ''name:ar''), (''v'', ''x'')] []])).
        ''ref'' \<in> set (keys (attrib nd))"
    by code_simp
  show ?thesis
    by (rule cleaning_never_raises [OF a b c])
qed

end
